theory Spec2Isabelle
  imports Complex_Main
begin

section \<open>Values, errors and the random source\<close>

text \<open>
  The generators of \<^verbatim>\<open>foundation_dashboard.py\<close> and \<^verbatim>\<open>visual_foundations.py\<close>
  compute on NumPy arrays of double-precision numbers. The embedding idealises the finite
  doubles as real numbers (no rounding, no overflow) and keeps the three special values
  a division by zero can produce, so that a division by zero of the source is a visible
  value of the model and not HOL's \<open>x / 0 = 0\<close>.
\<close>

datatype float64 = Fin real | PInf | NInf | NaN

datatype error = ValueError

text \<open>\<^verbatim>\<open>a / b\<close> on doubles; a zero divisor counts as \<open>+0.0\<close>.\<close>

fun fdiv :: "float64 \<Rightarrow> float64 \<Rightarrow> float64" where
  "fdiv NaN _ = NaN"
| "fdiv _ NaN = NaN"
| "fdiv (Fin a) (Fin b) =
     (if b = 0 then (if a = 0 then NaN else if 0 < a then PInf else NInf) else Fin (a / b))"
| "fdiv (Fin a) PInf = Fin 0"
| "fdiv (Fin a) NInf = Fin 0"
| "fdiv PInf (Fin b) = (if 0 \<le> b then PInf else NInf)"
| "fdiv NInf (Fin b) = (if 0 \<le> b then NInf else PInf)"
| "fdiv PInf PInf = NaN"
| "fdiv PInf NInf = NaN"
| "fdiv NInf PInf = NaN"
| "fdiv NInf NInf = NaN"

text \<open>\<^verbatim>\<open>a + b\<close> on doubles.\<close>

fun fadd :: "float64 \<Rightarrow> float64 \<Rightarrow> float64" where
  "fadd NaN _ = NaN"
| "fadd _ NaN = NaN"
| "fadd (Fin a) (Fin b) = Fin (a + b)"
| "fadd (Fin a) PInf = PInf"
| "fadd (Fin a) NInf = NInf"
| "fadd PInf (Fin b) = PInf"
| "fadd NInf (Fin b) = NInf"
| "fadd PInf PInf = PInf"
| "fadd NInf NInf = NInf"
| "fadd PInf NInf = NaN"
| "fadd NInf PInf = NaN"

text \<open>\<^verbatim>\<open>x ** -k\<close> for a finite \<open>x\<close> and \<open>k > 0\<close>: at \<open>x = 0\<close> NumPy divides by zero
  and yields \<open>inf\<close>.\<close>

definition power_neg :: "real \<Rightarrow> nat \<Rightarrow> float64" where
  "power_neg x k = (if x = 0 then PInf else Fin (1 / x ^ k))"

text \<open>The maximum of two doubles as \<^verbatim>\<open>np.max\<close> takes it: a NaN propagates.\<close>

fun fmax :: "float64 \<Rightarrow> float64 \<Rightarrow> float64" where
  "fmax NaN _ = NaN"
| "fmax _ NaN = NaN"
| "fmax PInf _ = PInf"
| "fmax _ PInf = PInf"
| "fmax NInf b = b"
| "fmax a NInf = a"
| "fmax (Fin a) (Fin b) = Fin (max a b)"

text \<open>\<^verbatim>\<open>np.max(y)\<close>: raises ValueError on an empty array.\<close>

definition np_max :: "float64 list \<Rightarrow> error + float64" where
  "np_max y = (case y of [] \<Rightarrow> Inl ValueError | v # vs \<Rightarrow> Inr (fold (\<lambda>b a. fmax a b) vs v))"

definition is_finite :: "float64 \<Rightarrow> bool" where
  "is_finite v = (case v of Fin _ \<Rightarrow> True | _ \<Rightarrow> False)"

text \<open>
  \<^verbatim>\<open>np.linspace(start, stop, num)\<close> with the default \<open>endpoint=True\<close>: a negative \<open>num\<close>
  raises ValueError; otherwise sample \<open>i\<close> is \<open>i * step + start\<close> with
  \<open>step = (stop - start) / (num - 1)\<close> (for \<open>num = 1\<close> the only sample is \<open>start\<close>), and
  for \<open>num > 1\<close> the last sample is overwritten with \<open>stop\<close>.
\<close>

definition linspace :: "real \<Rightarrow> real \<Rightarrow> int \<Rightarrow> error + real list" where
  "linspace start stop num =
     (if num < 0 then Inl ValueError
      else
        let n = nat num;
            dv = n - 1;
            delta = stop - start;
            y = (if 0 < dv then map (\<lambda>i. real i * (delta / real dv) + start) [0..<n]
                 else map (\<lambda>i. real i * delta + start) [0..<n])
        in Inr (if 1 < n then y[n - 1 := stop] else y))"

text \<open>
  Where the source compares array elements with a bound, the outcome is decided on the
  doubles the arrays hold and not on the ideal values, and a sample next to the bound
  can fall on either side. For these comparisons the embedding rounds: \<open>float64_round\<close>
  is rounding to the nearest double, ties to even, for the normal range of doubles (no
  value of these computations leaves it); \<open>ulp\<close> is the spacing of the doubles around
  the argument. \<open>round_add\<close>, \<open>round_sub\<close>, \<open>round_mul\<close> and \<open>round_div\<close> are the four
  operations on doubles, each the exact result rounded.
\<close>

definition round_half_even :: "real \<Rightarrow> int" where
  "round_half_even q =
     (let f = \<lfloor>q\<rfloor>; r = q - of_int f
      in if r < 1/2 then f else if 1/2 < r then f + 1 else if even f then f else f + 1)"

definition float64_round :: "real \<Rightarrow> real" where
  "float64_round v =
     (if v = 0 then 0
      else let e = \<lfloor>log 2 \<bar>v\<bar>\<rfloor>;
               ulp = 2 powr (of_int e - 52)
           in of_int (round_half_even (v / ulp)) * ulp)"

definition round_add :: "real \<Rightarrow> real \<Rightarrow> real" where
  "round_add a b = float64_round (a + b)"

definition round_sub :: "real \<Rightarrow> real \<Rightarrow> real" where
  "round_sub a b = float64_round (a - b)"

definition round_mul :: "real \<Rightarrow> real \<Rightarrow> real" where
  "round_mul a b = float64_round (a * b)"

definition round_div :: "real \<Rightarrow> real \<Rightarrow> real" where
  "round_div a b = float64_round (a / b)"

text \<open>
  The doubles that the array \<^verbatim>\<open>np.linspace(start, stop, num)\<close> holds, for \<open>num \<ge> 0\<close>:
  the computation of \<open>linspace\<close> with every operation rounded. NumPy computes
  \<^verbatim>\<open>step = delta / div\<close> and \<^verbatim>\<open>y = arange(0, num) * step + start\<close>, and stores \<open>stop\<close>
  in the last element.
\<close>

definition linspace_float64 :: "real \<Rightarrow> real \<Rightarrow> int \<Rightarrow> real list" where
  "linspace_float64 start stop num =
     (let n = nat num;
          dv = n - 1;
          delta = round_sub stop start;
          y = (if 0 < dv
               then (let step = round_div delta (real dv)
                     in map (\<lambda>i. round_add (round_mul (real i) step) start) [0..<n])
               else map (\<lambda>i. round_add (round_mul (real i) delta) start) [0..<n])
      in if 1 < n then y[n - 1 := stop] else y)"

text \<open>
  The global random source of NumPy, as explicit state: the uniform draws of
  \<^verbatim>\<open>np.random.random\<close> (each in \<open>[0, 1)\<close>) and the standard normal draws of
  \<^verbatim>\<open>np.random.randn\<close> still to come. A call of size \<open>n\<close> returns the next \<open>n\<close>
  draws and advances the source.
\<close>

record rng =
  uniform_draws :: "nat \<Rightarrow> real"
  normal_draws :: "nat \<Rightarrow> real"

definition random_random :: "nat \<Rightarrow> rng \<Rightarrow> real list \<times> rng" where
  "random_random n g =
     (map (uniform_draws g) [0..<n], g\<lparr>uniform_draws := \<lambda>i. uniform_draws g (i + n)\<rparr>)"

definition random_randn :: "nat \<Rightarrow> rng \<Rightarrow> real list \<times> rng" where
  "random_randn n g =
     (map (normal_draws g) [0..<n], g\<lparr>normal_draws := \<lambda>i. normal_draws g (i + n)\<rparr>)"

text \<open>\<^verbatim>\<open>np.cumsum\<close>: running sums, same length as the argument.\<close>

fun cumsum_from :: "real \<Rightarrow> real list \<Rightarrow> real list" where
  "cumsum_from acc [] = []"
| "cumsum_from acc (v # vs) = (acc + v) # cumsum_from (acc + v) vs"

definition cumsum :: "real list \<Rightarrow> real list" where
  "cumsum vs = cumsum_from 0 vs"

text \<open>\<^verbatim>\<open>y[mask] -= d\<close>: subtract \<open>d\<close> where the mask holds.\<close>

definition sub_where :: "bool list \<Rightarrow> real \<Rightarrow> real list \<Rightarrow> real list" where
  "sub_where msk d y = map2 (\<lambda>m v. if m then v - d else v) msk y"

text \<open>Element-wise sum of two arrays of one length, and \<^verbatim>\<open>c * a\<close> for a scalar \<open>c\<close>.\<close>

definition vadd :: "real list \<Rightarrow> real list \<Rightarrow> real list" where
  "vadd a b = map2 (+) a b"

definition smul :: "real \<Rightarrow> real list \<Rightarrow> real list" where
  "smul c a = map (\<lambda>v. c * v) a"

text \<open>\<^verbatim>\<open>np.exp\<close> and \<^verbatim>\<open>a - b\<close> on doubles.\<close>

fun fexp :: "float64 \<Rightarrow> float64" where
  "fexp (Fin a) = Fin (exp a)"
| "fexp PInf = PInf"
| "fexp NInf = Fin 0"
| "fexp NaN = NaN"

fun fneg :: "float64 \<Rightarrow> float64" where
  "fneg (Fin a) = Fin (- a)"
| "fneg PInf = NInf"
| "fneg NInf = PInf"
| "fneg NaN = NaN"

definition fsub :: "float64 \<Rightarrow> float64 \<Rightarrow> float64" where
  "fsub a b = fadd a (fneg b)"

section \<open>The dashboard's generator\<close>

text \<open>
  \<^verbatim>\<open>AstronomyDashboard._generate_data(data_type, n_points, noise_level)\<close> of
  \<^verbatim>\<open>foundation_dashboard.py\<close>. No branch divides, so \<open>y\<close> is an array of finite
  values. The result is \<open>Inl\<close> an error when \<^verbatim>\<open>np.linspace\<close> raises, and otherwise the
  pair \<open>(x, y)\<close> with the random source as the call leaves it.
  The masks of the transit branch compare the samples with the edges of the transit:
  they are evaluated on \<open>x_float64\<close>, the doubles that \<open>x\<close> holds, against the edges as
  double arithmetic computes them (\<open>5.0\<close>, \<open>1.5\<close> and \<open>2\<close> are doubles; \<open>0.3\<close> and \<open>0.1\<close>
  stand for the nearest doubles).
\<close>

definition generate_data ::
  "string \<Rightarrow> int \<Rightarrow> real \<Rightarrow> rng \<Rightarrow> error + ((real list \<times> real list) \<times> rng)" where
  "generate_data data_type n_points noise_level g =
     (case linspace 0 10 n_points of
        Inl e \<Rightarrow> Inl e
      | Inr x \<Rightarrow>
          let n = nat n_points in
          if data_type = ''sine'' then
            (let (u, g1) = random_random n g;
                 y = vadd (map sin x) (smul noise_level u)
             in Inr ((x, y), g1))
          else if data_type = ''exponential'' then
            (let (u, g1) = random_random n g;
                 y = vadd (map (\<lambda>v. exp (- v / 3)) x) (smul (noise_level * 0.5) u)
             in Inr ((x, y), g1))
          else if data_type = ''spectrum'' then
            (let (u, g1) = random_random n g;
                 y = vadd (map (\<lambda>v. 1 + 0.1 * sin (5 * v)) x) (smul (noise_level * 0.5) u);
                 absorption_centers = [2.5, 5.0, 7.5];
                 absorption_depths = [0.25, 0.15, 0.20];
                 y = fold (\<lambda>(center, depth) y.
                             map2 (\<lambda>yi xi. yi - depth * exp (- ((xi - center)\<^sup>2) / 0.15)) y x)
                          (zip absorption_centers absorption_depths) y
             in Inr ((x, y), g1))
          else if data_type = ''lightcurve'' then
            (let trend = map (\<lambda>v. - 0.01 * v) x;
                 periodic = map (\<lambda>v. 0.08 * sin (2 * pi * v / 2.5)) x;
                 (u, g1) = random_random n g;
                 y = vadd (vadd (map (\<lambda>v. 1 + v) trend) periodic) (smul (noise_level * 0.2) u)
             in Inr ((x, y), g1))
          else if data_type = ''transit'' then
            (let x_float64 = linspace_float64 0 10 n_points;
                 y = replicate n 1;
                 transit_center = 5.0;
                 transit_duration = 1.5;
                 transit_depth = 0.015;
                 in_transit = map (\<lambda>v. \<bar>round_sub v transit_center\<bar>
                                          < round_div transit_duration 2) x_float64;
                 y = sub_where in_transit transit_depth y;
                 ingress = map (\<lambda>v. v > round_sub (round_sub transit_center
                                                      (round_div transit_duration 2))
                                                   (float64_round 0.3) \<and>
                                     v < round_add (round_sub transit_center
                                                      (round_div transit_duration 2))
                                                   (float64_round 0.1)) x_float64;
                 egress = map (\<lambda>v. v > round_sub (round_add transit_center
                                                     (round_div transit_duration 2))
                                                  (float64_round 0.1) \<and>
                                    v < round_add (round_add transit_center
                                                     (round_div transit_duration 2))
                                                  (float64_round 0.3)) x_float64;
                 y = sub_where ingress (transit_depth * 0.5) y;
                 y = sub_where egress (transit_depth * 0.5) y;
                 (u, g1) = random_random n g;
                 y = vadd y (smul (noise_level * 0.1) u)
             in Inr ((x, y), g1))
          else
            (let (w, g1) = random_randn n g;
                 y = cumsum (smul 0.3 w);
                 (u, g2) = random_random n g1;
                 y = vadd y (smul noise_level u)
             in Inr ((x, y), g2)))"

section \<open>The library's generator\<close>

text \<open>
  \<^verbatim>\<open>VisualFoundations.create_sample_data(data_type, n_points, noise_level)\<close> of
  \<^verbatim>\<open>visual_foundations.py\<close>. The blackbody branch divides, so \<open>y\<close> is an array of
  doubles that may hold special values. The result is \<open>Inl\<close> an error when
  \<^verbatim>\<open>np.linspace\<close> or \<^verbatim>\<open>np.max\<close> raises, and otherwise the triple \<open>(x, y, title)\<close>
  with the random source as the call leaves it. As in the dashboard, the masks of the
  transit branch are evaluated on the doubles that \<open>x\<close> holds.
\<close>

definition create_sample_data ::
  "string \<Rightarrow> int \<Rightarrow> real \<Rightarrow> rng \<Rightarrow> error + ((real list \<times> float64 list \<times> string) \<times> rng)" where
  "create_sample_data data_type n_points noise_level g =
     (case linspace 0 10 n_points of
        Inl e \<Rightarrow> Inl e
      | Inr x \<Rightarrow>
          let n = nat n_points in
          if data_type = ''sine'' then
            (let (u, g1) = random_random n g;
                 y = vadd (map sin x) (smul noise_level u)
             in Inr ((x, map Fin y, ''Sample Sine Wave Data''), g1))
          else if data_type = ''exponential'' then
            (let (u, g1) = random_random n g;
                 y = vadd (map (\<lambda>v. exp (- v / 3)) x) (smul (noise_level * 0.5) u)
             in Inr ((x, map Fin y, ''Sample Exponential Decay''), g1))
          else if data_type = ''spectrum'' then
            (let (u, g1) = random_random n g;
                 y = vadd (map (\<lambda>v. 1 + 0.1 * sin (5 * v)) x) (smul (noise_level * 0.5) u);
                 absorption_centers = [2.5, 5.0, 7.5];
                 absorption_depths = [0.25, 0.15, 0.20];
                 absorption_widths = [0.1, 0.15, 0.12];
                 y = fold (\<lambda>(center, depth, width) y.
                             map2 (\<lambda>yi xi. yi - depth * exp (- ((xi - center)\<^sup>2) / width)) y x)
                          (zip absorption_centers (zip absorption_depths absorption_widths)) y
             in Inr ((x, map Fin y, ''Sample Astronomical Spectrum''), g1))
          else if data_type = ''lightcurve'' then
            (let trend = map (\<lambda>v. - 0.01 * v) x;
                 periodic = map (\<lambda>v. 0.05 * sin (2 * pi * v / 2.5)) x;
                 (u, g1) = random_random n g;
                 noise = smul (noise_level * 0.2) u;
                 y = vadd (vadd (map (\<lambda>v. 1 + v) trend) periodic) noise
             in Inr ((x, map Fin y, ''Sample Light Curve''), g1))
          else if data_type = ''transit'' then
            (let x_float64 = linspace_float64 0 10 n_points;
                 y = replicate n 1;
                 transit_center = 5.0;
                 transit_duration = 1.5;
                 transit_depth = 0.02;
                 in_transit = map (\<lambda>v. \<bar>round_sub v transit_center\<bar>
                                          < round_div transit_duration 2) x_float64;
                 y = sub_where in_transit transit_depth y;
                 ingress = map (\<lambda>v. v > round_sub (round_sub transit_center
                                                      (round_div transit_duration 2))
                                                   (float64_round 0.2) \<and>
                                     v < round_add (round_sub transit_center
                                                      (round_div transit_duration 2))
                                                   (float64_round 0.2)) x_float64;
                 egress = map (\<lambda>v. v > round_sub (round_add transit_center
                                                     (round_div transit_duration 2))
                                                  (float64_round 0.2) \<and>
                                    v < round_add (round_add transit_center
                                                     (round_div transit_duration 2))
                                                  (float64_round 0.2)) x_float64;
                 y = sub_where ingress (transit_depth * 0.5) y;
                 y = sub_where egress (transit_depth * 0.5) y;
                 (u, g1) = random_random n g;
                 y = vadd y (smul (noise_level * 0.1) u)
             in Inr ((x, map Fin y, ''Sample Exoplanet Transit''), g1))
          else if data_type = ''blackbody'' then
            (let y = map (\<lambda>v. fdiv (power_neg v 5)
                                    (fsub (fexp (fdiv (Fin 1.0) (Fin (v + 0.1)))) (Fin 1))) x
             in case np_max y of
                  Inl e \<Rightarrow> Inl e
                | Inr m \<Rightarrow>
                    let y = map (\<lambda>v. fdiv v m) y;
                        (u, g1) = random_random n g;
                        y = map2 fadd y (map Fin (smul (noise_level * 0.05) u))
                    in Inr ((x, y, ''Sample Blackbody Spectrum''), g1))
          else
            (let (u, g1) = random_random n g;
                 y = vadd (smul 0.5 x) (smul noise_level u)
             in Inr ((x, map Fin y, ''Sample Linear Data''), g1)))"

text \<open>
  \<^verbatim>\<open>VisualFoundations.learning_dashboard_data(n_points)\<close>: the loop over the six data
  types, each generated with the default \<open>noise_level = 0.1\<close> and stored in the
  dictionary under its friendly key.
\<close>

fun learning_loop ::
  "string list \<Rightarrow> int \<Rightarrow> rng \<Rightarrow> (string \<rightharpoonup> real list \<times> float64 list) \<Rightarrow>
     error + ((string \<rightharpoonup> real list \<times> float64 list) \<times> rng)" where
  "learning_loop [] n_points g datasets = Inr (datasets, g)"
| "learning_loop (dtype # rest) n_points g datasets =
     (case create_sample_data dtype n_points 0.1 g of
        Inl e \<Rightarrow> Inl e
      | Inr ((x, y, _), g1) \<Rightarrow>
          let key = (if dtype \<noteq> ''sine'' then dtype else ''sine_wave'')
          in learning_loop rest n_points g1 (datasets(key \<mapsto> (x, y))))"

definition learning_dashboard_data ::
  "int \<Rightarrow> rng \<Rightarrow> error + ((string \<rightharpoonup> real list \<times> float64 list) \<times> rng)" where
  "learning_dashboard_data n_points g =
     (let data_types = [''sine'', ''exponential'', ''spectrum'',
                        ''lightcurve'', ''transit'', ''blackbody'']
      in learning_loop data_types n_points g Map.empty)"

text \<open>A random source whose uniform draws all equal \<open>u\<close> and whose normal draws all
  equal \<open>w\<close>, for evaluating the generators at concrete inputs.\<close>

definition constant_source :: "real \<Rightarrow> real \<Rightarrow> rng" where
  "constant_source u w = \<lparr>uniform_draws = (\<lambda>_. u), normal_draws = (\<lambda>_. w)\<rparr>"

text \<open>What a caller sees of a generator's result: the error or the returned tuple,
  without the state of the random source.\<close>

definition returned :: "error + ('a \<times> rng) \<Rightarrow> error + 'a" where
  "returned r = map_sum id fst r"

section \<open>The diagnostic script\<close>

text \<open>
  \<^verbatim>\<open>test_foundation.py\<close>. A \<^verbatim>\<open>TestResult\<close> carries a name and one of the four status
  constants; its message, details and fix hint are display text that no status and no
  exit code depends on, and are left out, as are the printing and the timing.
\<close>

datatype status = PASS | FAIL | WARN | SKIP

record TestResult =
  name :: string
  status :: status

record TestResults =
  results :: "TestResult list"

definition add :: "TestResult \<Rightarrow> TestResults \<Rightarrow> TestResults" where
  "add r t = t\<lparr>results := results t @ [r]\<rparr>"

definition passed :: "TestResults \<Rightarrow> nat" where
  "passed t = length (filter (\<lambda>r. status r = PASS) (results t))"


definition warnings :: "TestResults \<Rightarrow> nat" where
  "warnings t = length (filter (\<lambda>r. status r = WARN) (results t))"

definition total :: "TestResults \<Rightarrow> nat" where
  "total t = length (results t)"

text \<open>
  What the script probes of the machine it runs on: what importing a module does, the
  \<^verbatim>\<open>__version__\<close> it reports (\<^verbatim>\<open>'unknown'\<close> when it has none), the order of
  \<^verbatim>\<open>packaging.version\<close> on version strings, environment variables, directories, the
  interpreter, whether each functional test ran through, and the random source.

  The import handlers of the script catch \<^verbatim>\<open>ImportError\<close> only, so an import has three
  outcomes: the module is there, \<^verbatim>\<open>ImportError\<close> is raised, or another exception is
  raised, which no handler of the script catches. \<^verbatim>\<open>packaging.version.parse\<close> raises
  \<^verbatim>\<open>InvalidVersion\<close>, which is not caught either, on a string that is no version: then
  \<open>version_lt\<close> is \<open>None\<close>. A function that an exception leaves returns \<open>None\<close>.
\<close>

datatype import_outcome = Imported | ImportError | OtherError

record environment =
  import_module :: "string \<Rightarrow> import_outcome"
  module_version :: "string \<Rightarrow> string"
  version_lt :: "string \<Rightarrow> string \<Rightarrow> bool option"
  getenv :: "string \<Rightarrow> string option"
  isdir :: "string \<Rightarrow> bool"
  isolated_python :: bool
  version_info :: "nat \<times> nat"
  array_ops_ok :: bool
  fft_ok :: bool
  plot_saved :: bool
  plot_file_nonempty :: bool
  unit_conversion_ok :: bool
  skycoord_ok :: bool
  random_source :: rng



text \<open>An optional package: PASS when it imports, WARN on \<^verbatim>\<open>ImportError\<close>.\<close>

definition optional_import :: "environment \<Rightarrow> string \<Rightarrow> string \<Rightarrow> TestResult option" where
  "optional_import env display_name import_name =
     (case import_module env import_name of
        Imported \<Rightarrow> Some \<lparr>name = display_name, status = PASS\<rparr>
      | ImportError \<Rightarrow> Some \<lparr>name = display_name, status = WARN\<rparr>
      | OtherError \<Rightarrow> None)"





















section \<open>Basic facts about the array operations\<close>

lemma linspace_eq:
  assumes "0 \<le> num"
  shows "linspace a b num =
           Inr (map (\<lambda>i. real i * ((b - a) / real (nat num - 1)) + a) [0..<nat num])"
proof -
  let ?n = "nat num"
  let ?f = "\<lambda>i. real i * ((b - a) / real (?n - 1)) + a"
  have last: "(map ?f [0..<?n])[?n - 1 := b] = map ?f [0..<?n]" if "1 < ?n"
  proof (rule nth_equalityI)
    show "length ((map ?f [0..<?n])[?n - 1 := b]) = length (map ?f [0..<?n])" by simp
  next
    fix i assume "i < length ((map ?f [0..<?n])[?n - 1 := b])"
    then have i: "i < ?n" by simp
    show "(map ?f [0..<?n])[?n - 1 := b] ! i = map ?f [0..<?n] ! i"
    proof (cases "i = ?n - 1")
      case True
      with that i show ?thesis by (simp add: field_simps)
    next
      case False
      with i show ?thesis by simp
    qed
  qed
  have one: "map (\<lambda>i. real i * (b - a) + a) [0..<?n] = map ?f [0..<?n]" if "\<not> 1 < ?n"
    using that by (cases "?n = 0") (auto simp: less_Suc_eq)
  show ?thesis using assms last one
    by (auto simp: linspace_def Let_def)
qed

lemma linspace_nonneg:
  "0 \<le> num \<Longrightarrow> \<exists>x. linspace start stop num = Inr x \<and> length x = nat num"
  by (simp add: linspace_eq)

lemma linspace_5: "linspace 0 10 5 = Inr [0, 5/2, 5, 15/2, 10]"
  by (simp add: linspace_eq upt_rec)

lemma length_random_random [simp]: "length (fst (random_random n g)) = n"
  by (simp add: random_random_def)

lemma length_random_randn [simp]: "length (fst (random_randn n g)) = n"
  by (simp add: random_randn_def)

lemma length_vadd [simp]: "length (vadd a b) = min (length a) (length b)"
  by (simp add: vadd_def)

lemma length_smul [simp]: "length (smul c a) = length a"
  by (simp add: smul_def)

lemma length_sub_where [simp]: "length (sub_where m d y) = min (length m) (length y)"
  by (simp add: sub_where_def)

lemma length_cumsum_from [simp]: "length (cumsum_from acc vs) = length vs"
  by (induction vs arbitrary: acc) simp_all

lemma length_cumsum [simp]: "length (cumsum vs) = length vs"
  by (simp add: cumsum_def)

lemma length_fold_map2:
  "length y = length x \<Longrightarrow> length (fold (\<lambda>p y. map2 (h p) y x) ps y) = length x"
  by (induction ps arbitrary: y) simp_all

lemma np_max_nonempty: "y \<noteq> [] \<Longrightarrow> \<exists>m. np_max y = Inr m"
  by (cases y) (simp_all add: np_max_def)

lemma vadd_smul_zero: "length u = length y \<Longrightarrow> vadd y (smul 0 u) = y"
  by (auto simp: vadd_def smul_def intro!: nth_equalityI)

section \<open>Rounding to double precision\<close>

lemma round_half_even_error: "\<bar>of_int (round_half_even q) - q\<bar> \<le> 1/2"
proof -
  have "of_int \<lfloor>q\<rfloor> \<le> q" "q < of_int \<lfloor>q\<rfloor> + 1" by linarith+
  then show ?thesis
    by (auto simp: round_half_even_def Let_def)
qed

lemma float64_round_zero [simp]: "float64_round 0 = 0"
  by (simp add: float64_round_def)

lemma float64_round_error: "\<bar>float64_round v - v\<bar> \<le> \<bar>v\<bar> / 2 ^ 53"
proof (cases "v = 0")
  case True
  then show ?thesis by simp
next
  case False
  define e where "e = \<lfloor>log 2 \<bar>v\<bar>\<rfloor>"
  define u where "u = (2::real) powr (of_int e - 52)"
  have u: "0 < u" by (simp add: u_def)
  from False have a: "0 < \<bar>v\<bar>" by simp
  have "of_int e \<le> log 2 \<bar>v\<bar>" unfolding e_def by linarith
  then have "(2::real) powr (of_int e) \<le> 2 powr (log 2 \<bar>v\<bar>)" by (simp add: powr_mono)
  also have "\<dots> = \<bar>v\<bar>" using a by simp
  finally have p: "2 powr (of_int e) \<le> \<bar>v\<bar>" .
  have ue: "u = 2 powr (of_int e) / 2 ^ 52"
    unfolding u_def by (simp add: powr_diff)
  have r: "float64_round v = of_int (round_half_even (v / u)) * u"
    using False by (simp add: float64_round_def Let_def e_def u_def)
  have "\<bar>float64_round v - v\<bar> = \<bar>of_int (round_half_even (v / u)) - v / u\<bar> * u"
  proof -
    have "float64_round v - v = (of_int (round_half_even (v / u)) - v / u) * u"
      using u by (simp add: r field_simps)
    then show ?thesis using u by (simp add: abs_mult)
  qed
  also have "\<dots> \<le> 1/2 * u"
    using round_half_even_error [of "v / u"] u by (intro mult_right_mono) simp_all
  also have "\<dots> = 2 powr (of_int e) / 2 ^ 53" by (simp add: ue)
  also have "\<dots> \<le> \<bar>v\<bar> / 2 ^ 53" using p by (simp add: divide_right_mono)
  finally show ?thesis .
qed

lemma length_linspace_float64 [simp]: "length (linspace_float64 a b num) = nat num"
  by (simp add: linspace_float64_def Let_def)

lemma tri: "\<bar>c - b\<bar> \<le> \<bar>c - a\<bar> + \<bar>a - b\<bar>" for a b c :: real
  by linarith

lemma round_rel:
  assumes "\<bar>a - b\<bar> \<le> \<bar>b\<bar> * r" and "0 \<le> r" and "r \<le> 1"
  shows "\<bar>float64_round a - b\<bar> \<le> \<bar>b\<bar> * (r + 1 / 10 ^ 15)"
proof -
  have "\<bar>b\<bar> * r \<le> \<bar>b\<bar> * 1" using assms(3) by (intro mult_left_mono) simp_all
  with assms(1) have a: "\<bar>a\<bar> \<le> 2 * \<bar>b\<bar>" by simp
  have "\<bar>float64_round a - a\<bar> \<le> \<bar>a\<bar> / 2 ^ 53" by (rule float64_round_error)
  also have "\<dots> \<le> 2 * \<bar>b\<bar> / 2 ^ 53" using a by (simp add: divide_right_mono)
  also have "\<dots> \<le> \<bar>b\<bar> * (1 / 10 ^ 15)" by simp
  finally have f: "\<bar>float64_round a - a\<bar> \<le> \<bar>b\<bar> * (1 / 10 ^ 15)" .
  have "\<bar>float64_round a - b\<bar> \<le> \<bar>float64_round a - a\<bar> + \<bar>a - b\<bar>" by (rule tri)
  also have "\<dots> \<le> \<bar>b\<bar> * (1 / 10 ^ 15) + \<bar>b\<bar> * r" by (rule add_mono [OF f assms(1)])
  also have "\<dots> = \<bar>b\<bar> * (r + 1 / 10 ^ 15)" by (simp only: distrib_left add.commute)
  finally show ?thesis .
qed

lemma round_abs:
  assumes "\<bar>a - b\<bar> \<le> r" and "\<bar>b\<bar> \<le> 15" and "r \<le> 1"
  shows "\<bar>float64_round a - b\<bar> \<le> r + 2 / 10 ^ 15"
proof -
  from assms have a: "\<bar>a\<bar> \<le> 16" by simp
  have "\<bar>float64_round a - a\<bar> \<le> \<bar>a\<bar> / 2 ^ 53" by (rule float64_round_error)
  also have "\<dots> \<le> 16 / 2 ^ 53" using a by (simp add: divide_right_mono)
  also have "\<dots> \<le> 2 / 10 ^ 15" by simp
  finally have f: "\<bar>float64_round a - a\<bar> \<le> 2 / 10 ^ 15" .
  have "\<bar>float64_round a - b\<bar> \<le> \<bar>float64_round a - a\<bar> + \<bar>a - b\<bar>" by (rule tri)
  also have "\<dots> \<le> 2 / 10 ^ 15 + r" by (rule add_mono [OF f assms(1)])
  also have "\<dots> = r + 2 / 10 ^ 15" by (simp only: add.commute)
  finally show ?thesis .
qed

lemma rel_div:
  fixes a b c r :: real
  assumes "\<bar>a - b\<bar> \<le> \<bar>b\<bar> * r"
  shows "\<bar>a / c - b / c\<bar> \<le> \<bar>b / c\<bar> * r"
proof -
  have "\<bar>a / c - b / c\<bar> = \<bar>a - b\<bar> / \<bar>c\<bar>" by (simp add: diff_divide_distrib [symmetric])
  also have "\<dots> \<le> \<bar>b\<bar> * r / \<bar>c\<bar>" using assms by (simp add: divide_right_mono)
  finally show ?thesis by simp
qed

lemma rel_mul:
  fixes a b c r :: real
  assumes "\<bar>a - b\<bar> \<le> \<bar>b\<bar> * r"
  shows "\<bar>c * a - c * b\<bar> \<le> \<bar>c * b\<bar> * r"
proof -
  have "\<bar>c * a - c * b\<bar> = \<bar>c\<bar> * \<bar>a - b\<bar>" by (simp add: right_diff_distrib [symmetric] abs_mult)
  also have "\<dots> \<le> \<bar>c\<bar> * (\<bar>b\<bar> * r)" using assms by (intro mult_left_mono) simp_all
  finally show ?thesis by (simp add: abs_mult mult.assoc)
qed

lemma grid_point_near:
  fixes i dv :: nat
  assumes "i \<le> dv" and "0 < dv"
  shows "\<bar>round_add (round_mul (real i) (round_div (round_sub 10 0) (real dv))) 0
          - (real i * ((10 - 0) / real dv) + 0)\<bar> \<le> 4 / 10 ^ 14"
proof -
  define h where "h = (10::real) / real dv"
  define delta where "delta = round_sub 10 0"
  define step where "step = round_div delta (real dv)"
  define m where "m = round_mul (real i) step"
  have d: "\<bar>delta - 10\<bar> \<le> \<bar>10\<bar> * (0 + 1 / 10 ^ 15)"
    unfolding delta_def round_sub_def by (rule round_rel) simp_all
  have "\<bar>delta / real dv - 10 / real dv\<bar> \<le> \<bar>10 / real dv\<bar> * (0 + 1 / 10 ^ 15)"
    by (rule rel_div [OF d])
  then have s: "\<bar>step - h\<bar> \<le> \<bar>h\<bar> * (1 / 10 ^ 15 + 1 / 10 ^ 15)"
    unfolding step_def round_div_def h_def by (intro round_rel) simp_all
  have "\<bar>real i * step - real i * h\<bar> \<le> \<bar>real i * h\<bar> * (1 / 10 ^ 15 + 1 / 10 ^ 15)"
    by (rule rel_mul [OF s])
  then have m: "\<bar>m - real i * h\<bar> \<le> \<bar>real i * h\<bar> * (1 / 10 ^ 15 + 1 / 10 ^ 15 + 1 / 10 ^ 15)"
    unfolding m_def round_mul_def by (intro round_rel) simp_all
  then have "\<bar>(m + 0) - real i * h\<bar> \<le> \<bar>real i * h\<bar> * (1 / 10 ^ 15 + 1 / 10 ^ 15 + 1 / 10 ^ 15)"
    by simp
  then have r: "\<bar>round_add m 0 - real i * h\<bar>
                 \<le> \<bar>real i * h\<bar> * (1 / 10 ^ 15 + 1 / 10 ^ 15 + 1 / 10 ^ 15 + 1 / 10 ^ 15)"
    unfolding round_add_def by (intro round_rel) simp_all
  have "real i * h \<le> real dv * h"
    using assms by (intro mult_right_mono) (simp_all add: h_def)
  also have "\<dots> = 10" using assms by (simp add: h_def)
  finally have u: "real i * h \<le> 10" .
  have l: "0 \<le> real i * h" by (simp add: h_def)
  from u l have "\<bar>real i * h\<bar> * (1 / 10 ^ 15 + 1 / 10 ^ 15 + 1 / 10 ^ 15 + 1 / 10 ^ 15)
                   \<le> 10 * (1 / 10 ^ 15 + 1 / 10 ^ 15 + 1 / 10 ^ 15 + 1 / 10 ^ 15)"
    by (intro mult_right_mono) simp_all
  with r have "\<bar>round_add m 0 - real i * h\<bar> \<le> 4 / 10 ^ 14" by simp
  then show ?thesis
    by (simp add: m_def step_def delta_def h_def)
qed

lemma linspace_last_sample: "c \<noteq> 0 \<Longrightarrow> c * ((10 - 0) / c) + 0 = 10" for c :: real
  by simp

lemma linspace_float64_near:
  assumes "linspace 0 10 num = Inr x" and "i < length x"
  shows "\<bar>linspace_float64 0 10 num ! i - x ! i\<bar> \<le> 4 / 10 ^ 14"
proof -
  let ?n = "nat num"
  let ?f = "\<lambda>i. real i * ((10 - 0) / real (?n - 1)) + 0"
  from assms(1) have num: "0 \<le> num" by (auto simp: linspace_def split: if_splits)
  with assms(1) have x: "x = map ?f [0..<?n]" by (simp add: linspace_eq)
  with assms(2) have i: "i < ?n" by simp
  show ?thesis
  proof (cases "?n = 1")
    case True
    with i have "i = 0" by simp
    then show ?thesis
      using True by (simp add: x linspace_float64_def Let_def round_add_def round_mul_def)
  next
    case False
    with i have n: "1 < ?n" by simp
    show ?thesis
    proof (cases "i = ?n - 1")
      case True
      from n have "real (?n - 1) \<noteq> 0" by simp
      then have "?f (?n - 1) = 10" by (rule linspace_last_sample)
      with n i True have "x ! i = 10" by (simp only: x nth_map length_upt nth_upt diff_zero add_0)
      moreover from n i True have "linspace_float64 0 10 num ! i = 10"
        by (simp add: linspace_float64_def Let_def)
      ultimately show ?thesis by simp
    next
      case False
      with i have "i \<le> ?n - 1" by simp
      moreover from n have "0 < ?n - 1" by simp
      ultimately have "\<bar>round_add (round_mul (real i) (round_div (round_sub 10 0) (real (?n - 1)))) 0
          - (real i * ((10 - 0) / real (?n - 1)) + 0)\<bar> \<le> 4 / 10 ^ 14"
        by (rule grid_point_near)
      with n i False show ?thesis by (simp add: x linspace_float64_def Let_def)
    qed
  qed
qed

lemma linspace_range:
  assumes "linspace 0 10 num = Inr x" and "i < length x"
  shows "0 \<le> x ! i \<and> x ! i \<le> 10"
proof -
  let ?n = "nat num"
  from assms(1) have num: "0 \<le> num" by (auto simp: linspace_def split: if_splits)
  with assms(1) have x: "x = map (\<lambda>i. real i * ((10 - 0) / real (?n - 1)) + 0) [0..<?n]"
    by (simp add: linspace_eq)
  with assms(2) have i: "i < ?n" by simp
  then have "real i \<le> real (?n - 1)" by simp
  then have "real i * (10 / real (?n - 1)) \<le> real (?n - 1) * (10 / real (?n - 1))"
    by (intro mult_right_mono) simp_all
  also have "\<dots> \<le> 10" by simp
  finally show ?thesis using i by (simp add: x)
qed

section \<open>Lengths of the generated series\<close>

lemma generate_data_length:
  assumes "1 \<le> n_points"
  shows "\<exists>x y g'. generate_data data_type n_points noise_level g = Inr ((x, y), g')
           \<and> int (length x) = n_points \<and> int (length y) = n_points"
proof -
  from assms obtain x where x: "linspace 0 10 n_points = Inr x" "length x = nat n_points"
    using linspace_nonneg [of n_points 0 10] by auto
  show ?thesis using assms x
    by (simp add: generate_data_def Let_def split_beta length_fold_map2)
qed

lemma create_sample_data_length:
  assumes "1 \<le> n_points"
  shows "\<exists>x y title g'.
           create_sample_data data_type n_points noise_level g = Inr ((x, y, title), g')
           \<and> int (length x) = n_points \<and> int (length y) = n_points"
proof -
  from assms obtain x where x: "linspace 0 10 n_points = Inr x" "length x = nat n_points"
    using linspace_nonneg [of n_points 0 10] by auto
  let ?y = "map (\<lambda>v. fdiv (power_neg v 5) (fsub (fexp (fdiv (Fin 1.0) (Fin (v + 0.1)))) (Fin 1))) x"
  from assms x have "?y \<noteq> []" by auto
  then obtain m where m: "np_max ?y = Inr m" using np_max_nonempty by blast
  show ?thesis using assms x m
    by (simp add: create_sample_data_def Let_def split_beta length_fold_map2)
qed

text \<open>
  C1. For every data type (the supported ones among them) and every integer
  \<open>n_points \<ge> 1\<close>, the dashboard's generator and the library's generator both return,
  without raising, sequences \<open>x\<close> and \<open>y\<close> with \<open>len(x) = len(y) = n_points\<close>.
\<close>

theorem generators_length:
  assumes "1 \<le> n_points"
  shows "(\<exists>x y g'. generate_data data_type n_points noise_level g = Inr ((x, y), g')
            \<and> int (length x) = n_points \<and> int (length y) = n_points)
       \<and> (\<exists>x y title g'.
            create_sample_data data_type n_points noise_level g = Inr ((x, y, title), g')
            \<and> int (length x) = n_points \<and> int (length y) = n_points)"
  using assms generate_data_length create_sample_data_length by simp

theorem generators_length_witness:
  "(1::int) \<le> 3
   \<and> (\<exists>x y g'. generate_data ''transit'' 3 (1/10) (constant_source 0 0) = Inr ((x, y), g')
         \<and> int (length x) = 3 \<and> int (length y) = 3)
   \<and> (\<exists>x y title g'.
         create_sample_data ''transit'' 3 (1/10) (constant_source 0 0) = Inr ((x, y, title), g')
         \<and> int (length x) = 3 \<and> int (length y) = 3)"
  using generators_length [where n_points = 3 and data_type = "''transit''"
      and noise_level = "1/10" and g = "constant_source 0 0"]
  by simp

section \<open>The sine example\<close>

lemma sin_bound_a: "\<bar>sin (5/2::real) - 599/1000\<bar> \<le> 1/1000"
proof -
  have P: "(\<Sum>m<14. sin_coeff m * (5/2::real) ^ m) = 1221165981485/2040470175744"
    by (simp add: sin_coeff_def lessThan_nat_numeral lessThan_Suc fact_numeral power_divide)
  have E: "inverse (fact 14) * \<bar>5/2::real\<bar> ^ 14 = 244140625/57133164920832"
    by (simp add: fact_numeral power_divide)
  have "\<bar>sin (5/2::real) - (\<Sum>m<14. sin_coeff m * (5/2) ^ m)\<bar>
          \<le> inverse (fact 14) * \<bar>5/2\<bar> ^ 14"
    by (rule Maclaurin_sin_bound)
  then have "\<bar>sin (5/2::real) - 1221165981485/2040470175744\<bar> \<le> 244140625/57133164920832"
    unfolding P E .
  then show ?thesis by linarith
qed

lemma sin_bound_b: "\<bar>sin (5::real) - (- 959/1000)\<bar> \<le> 1/1000"
proof -
  have P: "(\<Sum>m<22. sin_coeff m * (5::real) ^ m) = -78387715283896855/81745507474735104"
    by (simp add: sin_coeff_def lessThan_nat_numeral lessThan_Suc fact_numeral power_divide)
  have E: "inverse (fact 22) * \<bar>5::real\<bar> ^ 22 = 3814697265625/1798401164444172288"
    by (simp add: fact_numeral power_divide)
  have "\<bar>sin (5::real) - (\<Sum>m<22. sin_coeff m * (5) ^ m)\<bar>
          \<le> inverse (fact 22) * \<bar>5\<bar> ^ 22"
    by (rule Maclaurin_sin_bound)
  then have "\<bar>sin (5::real) - -78387715283896855/81745507474735104\<bar> \<le> 3814697265625/1798401164444172288"
    unfolding P E .
  then show ?thesis by linarith
qed

lemma sin_bound_c: "\<bar>sin (15/2::real) - 938/1000\<bar> \<le> 1/1000"
proof -
  have P: "(\<Sum>m<30. sin_coeff m * (15/2::real) ^ m) = 16248847814875564344142891095/17322863048055918237419831296"
    by (simp add: sin_coeff_def lessThan_nat_numeral lessThan_Suc fact_numeral power_divide)
  have E: "inverse (fact 30) * \<bar>15/2::real\<bar> ^ 30 = 513156902790069580078125/762205974114460402446472577024"
    by (simp add: fact_numeral power_divide)
  have "\<bar>sin (15/2::real) - (\<Sum>m<30. sin_coeff m * (15/2) ^ m)\<bar>
          \<le> inverse (fact 30) * \<bar>15/2\<bar> ^ 30"
    by (rule Maclaurin_sin_bound)
  then have "\<bar>sin (15/2::real) - 16248847814875564344142891095/17322863048055918237419831296\<bar> \<le> 513156902790069580078125/762205974114460402446472577024"
    unfolding P E .
  then show ?thesis by linarith
qed

lemma sin_bound_d: "\<bar>sin (10::real) - (- 544/1000)\<bar> \<le> 1/1000"
proof -
  have P: "(\<Sum>m<38. sin_coeff m * (10::real) ^ m) = -159394988224081100524394870/292994147778118189878037563"
    by (simp add: sin_coeff_def lessThan_nat_numeral lessThan_Suc fact_numeral power_divide)
  have E: "inverse (fact 38) * \<bar>10::real\<bar> ^ 38 = 7450580596923828125000/38968221654489719253778995879"
    by (simp add: fact_numeral power_divide)
  have "\<bar>sin (10::real) - (\<Sum>m<38. sin_coeff m * (10) ^ m)\<bar>
          \<le> inverse (fact 38) * \<bar>10\<bar> ^ 38"
    by (rule Maclaurin_sin_bound)
  then have "\<bar>sin (10::real) - -159394988224081100524394870/292994147778118189878037563\<bar> \<le> 7450580596923828125000/38968221654489719253778995879"
    unfolding P E .
  then show ?thesis by linarith
qed

text \<open>
  C2. Generating \<^verbatim>\<open>'sine'\<close> data with \<open>n_points = 5\<close> and \<open>noise_level = 0\<close> returns
  \<open>x = [0, 2.5, 5.0, 7.5, 10.0]\<close> and a \<open>y\<close> whose entries are within \<open>0.001\<close> of
  \<open>[0.0, 0.599, -0.959, 0.938, -0.544]\<close>, in the dashboard and in the library, whatever
  the state of the random source.
\<close>

theorem sine_example:
  "(\<exists>y g'. generate_data ''sine'' 5 0 g = Inr (([0, 5/2, 5, 15/2, 10], y), g')
       \<and> list_all2 (\<lambda>a b. \<bar>a - b\<bar> \<le> 1/1000) y [0, 599/1000, - 959/1000, 938/1000, - 544/1000])
   \<and> (\<exists>y g'. create_sample_data ''sine'' 5 0 g
                = Inr (([0, 5/2, 5, 15/2, 10], map Fin y, ''Sample Sine Wave Data''), g')
       \<and> list_all2 (\<lambda>a b. \<bar>a - b\<bar> \<le> 1/1000) y [0, 599/1000, - 959/1000, 938/1000, - 544/1000])"
proof -
  let ?y = "[sin 0, sin (5/2), sin 5, sin (15/2), sin (10::real)]"
  have tol: "list_all2 (\<lambda>a b. \<bar>a - b\<bar> \<le> 1/1000) ?y
               [0, 599/1000, - 959/1000, 938/1000, - 544/1000]"
    using sin_bound_a sin_bound_b sin_bound_c sin_bound_d by simp
  have d: "\<exists>g'. generate_data ''sine'' 5 0 g = Inr (([0, 5/2, 5, 15/2, 10], ?y), g')"
    by (simp add: generate_data_def linspace_5 split_beta vadd_def smul_def
        random_random_def upt_rec)
  have l: "\<exists>g'. create_sample_data ''sine'' 5 0 g
                  = Inr (([0, 5/2, 5, 15/2, 10], map Fin ?y, ''Sample Sine Wave Data''), g')"
    by (simp add: create_sample_data_def linspace_5 split_beta vadd_def smul_def
        random_random_def upt_rec)
  from d l tol show ?thesis by blast
qed

section \<open>Unrecognised data types\<close>

lemma generate_data_default:
  assumes "data_type \<notin> {''sine'', ''exponential'', ''spectrum'', ''lightcurve'', ''transit''}"
    and "0 \<le> n_points"
  shows "\<exists>x g'. linspace 0 10 n_points = Inr x \<and>
           generate_data data_type n_points noise_level g
             = Inr ((x, vadd (cumsum (smul 0.3 (fst (random_randn (nat n_points) g))))
                             (smul noise_level (fst (random_random (nat n_points) g)))), g')"
proof -
  from assms obtain x where x: "linspace 0 10 n_points = Inr x"
    using linspace_nonneg by blast
  with assms show ?thesis
    by (simp add: generate_data_def split_beta random_random_def random_randn_def Let_def)
qed

lemma create_sample_data_default:
  assumes "data_type \<notin> {''sine'', ''exponential'', ''spectrum'', ''lightcurve'',
                         ''transit'', ''blackbody''}"
    and "0 \<le> n_points"
  shows "\<exists>x g'. linspace 0 10 n_points = Inr x \<and>
           create_sample_data data_type n_points noise_level g
             = Inr ((x, map Fin (vadd (smul 0.5 x)
                                      (smul noise_level (fst (random_random (nat n_points) g)))),
                     ''Sample Linear Data''), g')"
proof -
  from assms obtain x where x: "linspace 0 10 n_points = Inr x"
    using linspace_nonneg by blast
  with assms show ?thesis
    by (simp add: create_sample_data_def split_beta random_random_def Let_def)
qed

text \<open>
  C3, as the claim states it, fails for the dashboard: with a random source whose normal
  draws are all \<open>1\<close>, an unrecognised data type yields \<open>y = [0.3]\<close>, the first step of the
  random walk, where the sine series is \<open>y = [0]\<close>.
\<close>

theorem unknown_type_not_sine:
  "returned (generate_data ''unknown'' 1 0 (constant_source 0 1)) = Inr ([0], [3/10])
   \<and> returned (generate_data ''sine'' 1 0 (constant_source 0 1)) = Inr ([0], [0])"
  by (simp add: returned_def generate_data_def linspace_eq split_beta random_random_def
      random_randn_def constant_source_def vadd_def smul_def cumsum_def)

text \<open>
  C3, amended. For every \<open>n_points \<ge> 0\<close>, a data type outside the branches a generator
  tests for does not raise and returns that generator's last branch: in the dashboard the
  random walk (the running sum of \<open>0.3\<close> times \<open>n_points\<close> normal draws, plus
  \<open>noise_level\<close> times \<open>n_points\<close> uniform draws), in the library the linear series
  \<open>0.5 x\<close> plus \<open>noise_level\<close> times \<open>n_points\<close> uniform draws, titled
  \<^verbatim>\<open>Sample Linear Data\<close>.
\<close>

theorem unknown_type_default:
  assumes "0 \<le> n_points"
  shows "(data_type \<notin> {''sine'', ''exponential'', ''spectrum'', ''lightcurve'', ''transit''}
          \<longrightarrow> (\<exists>x g'. linspace 0 10 n_points = Inr x \<and>
                 generate_data data_type n_points noise_level g
                   = Inr ((x, vadd (cumsum (smul 0.3 (fst (random_randn (nat n_points) g))))
                                   (smul noise_level (fst (random_random (nat n_points) g)))),
                          g')))
       \<and> (data_type \<notin> {''sine'', ''exponential'', ''spectrum'', ''lightcurve'',
                          ''transit'', ''blackbody''}
          \<longrightarrow> (\<exists>x g'. linspace 0 10 n_points = Inr x \<and>
                 create_sample_data data_type n_points noise_level g
                   = Inr ((x, map Fin (vadd (smul 0.5 x)
                                 (smul noise_level (fst (random_random (nat n_points) g)))),
                           ''Sample Linear Data''), g')))"
proof (intro conjI impI)
  assume d: "data_type \<notin> {''sine'', ''exponential'', ''spectrum'', ''lightcurve'', ''transit''}"
  show "\<exists>x g'. linspace 0 10 n_points = Inr x \<and>
          generate_data data_type n_points noise_level g
            = Inr ((x, vadd (cumsum (smul 0.3 (fst (random_randn (nat n_points) g))))
                            (smul noise_level (fst (random_random (nat n_points) g)))), g')"
    by (rule generate_data_default [OF d assms])
next
  assume l: "data_type \<notin> {''sine'', ''exponential'', ''spectrum'', ''lightcurve'',
                            ''transit'', ''blackbody''}"
  show "\<exists>x g'. linspace 0 10 n_points = Inr x \<and>
          create_sample_data data_type n_points noise_level g
            = Inr ((x, map Fin (vadd (smul 0.5 x)
                          (smul noise_level (fst (random_random (nat n_points) g)))),
                    ''Sample Linear Data''), g')"
    by (rule create_sample_data_default [OF l assms])
qed

theorem unknown_type_default_witness:
  "(0::int) \<le> 2
   \<and> ''unknown'' \<notin> {''sine'', ''exponential'', ''spectrum'', ''lightcurve'', ''transit'',
                       ''blackbody''}
   \<and> (\<exists>x g'. linspace 0 10 2 = Inr x \<and>
         generate_data ''unknown'' 2 (1/10) (constant_source (1/2) 1)
           = Inr ((x, vadd (cumsum (smul 0.3 (fst (random_randn (nat 2) (constant_source (1/2) 1)))))
                           (smul (1/10) (fst (random_random (nat 2) (constant_source (1/2) 1))))),
                  g'))
   \<and> (\<exists>x g'. linspace 0 10 2 = Inr x \<and>
         create_sample_data ''unknown'' 2 (1/10) (constant_source (1/2) 1)
           = Inr ((x, map Fin (vadd (smul 0.5 x)
                         (smul (1/10) (fst (random_random (nat 2) (constant_source (1/2) 1))))),
                   ''Sample Linear Data''), g'))"
proof -
  have n: "(0::int) \<le> 2" by simp
  have d: "''unknown'' \<notin> {''sine'', ''exponential'', ''spectrum'', ''lightcurve'', ''transit''}"
    by simp
  have l: "''unknown'' \<notin> {''sine'', ''exponential'', ''spectrum'', ''lightcurve'', ''transit'',
                            ''blackbody''}"
    by simp
  note T = unknown_type_default [OF n, where data_type = "''unknown''" and noise_level = "1/10"
      and g = "constant_source (1/2) 1"]
  note P = T [THEN conjunct1, THEN mp, OF d]
  note Q = T [THEN conjunct2, THEN mp, OF l]
  show ?thesis
    by (intro conjI) (rule n, rule l, rule P, rule Q)
qed

section \<open>The transit series\<close>

lemma sub_where_three:
  "length xs = n \<Longrightarrow>
     sub_where (map c xs) h (sub_where (map b xs) h (sub_where (map a xs) p (replicate n d)))
       = map (\<lambda>w. d - (if a w then p else 0) - (if b w then h else 0) - (if c w then h else 0)) xs"
  by (induction xs arbitrary: n) (auto simp: sub_where_def)

lemma shoulder_cases:
  fixes v a b c d :: real
  assumes "b \<le> c"
  shows "(d::real) - (if \<bar>v - 5\<bar> < 3/4 then p else 0)
     - (if a < v \<and> v < b then h else 0)
     - (if c < v \<and> v < e then h else 0)
   = (if \<bar>v - 5\<bar> < 3/4 then d - p else d)
     - (if (a < v \<and> v < b) \<or> (c < v \<and> v < e) then h else 0)"
proof -
  consider (i) "a < v \<and> v < b" | (e) "c < v \<and> v < e"
    | (n) "\<not> (a < v \<and> v < b) \<and> \<not> (c < v \<and> v < e)"
    by blast
  then show ?thesis
  proof cases
    case i
    with assms have "\<not> (c < v \<and> v < e)" by linarith
    with i show ?thesis by auto
  next
    case e
    with assms have "\<not> (a < v \<and> v < b)" by linarith
    with e show ?thesis by auto
  next
    case n
    then show ?thesis by auto
  qed
qed

lemma less_robust:
  fixes w v T t :: real
  assumes "\<bar>w - v\<bar> \<le> 1 / 10 ^ 13" and "\<bar>T - t\<bar> \<le> 1 / 10 ^ 13" and "1 / 10 ^ 9 < \<bar>v - t\<bar>"
  shows "(T < w) = (t < v)" and "(w < T) = (v < t)"
proof -
  have m: "(1::real) / 10 ^ 13 + 1 / 10 ^ 13 < 1 / 10 ^ 9" by simp
  define a where "a = (1::real) / 10 ^ 13"
  define c where "c = (1::real) / 10 ^ 9"
  from assms m have h: "\<bar>w - v\<bar> \<le> a" "\<bar>T - t\<bar> \<le> a" "c < \<bar>v - t\<bar>" "a + a < c"
    by (simp_all only: a_def c_def)
  from h show "(T < w) = (t < v)" by linarith
  from h show "(w < T) = (v < t)" by linarith
qed

lemma window_robust:
  fixes R v C :: real
  assumes "\<bar>R - (v - 5)\<bar> \<le> 1 / 10 ^ 13" and "\<bar>C - 3/4\<bar> \<le> 1 / 10 ^ 13"
    and "1 / 10 ^ 9 < \<bar>v - 17/4\<bar>" and "1 / 10 ^ 9 < \<bar>v - 23/4\<bar>"
  shows "(\<bar>R\<bar> < C) = (\<bar>v - 5\<bar> < 3/4)"
proof -
  have m: "(1::real) / 10 ^ 13 + 1 / 10 ^ 13 < 1 / 10 ^ 9" by simp
  define a where "a = (1::real) / 10 ^ 13"
  define c where "c = (1::real) / 10 ^ 9"
  from assms m have h: "\<bar>R - (v - 5)\<bar> \<le> a" "\<bar>C - 3/4\<bar> \<le> a"
    "c < \<bar>v - 17/4\<bar>" "c < \<bar>v - 23/4\<bar>" "a + a < c"
    by (simp_all only: a_def c_def)
  from h show ?thesis by linarith
qed

lemma mask_profile:
  fixes w v R C T1 T2 T3 T4 t1 t2 t3 t4 d p h :: real
  assumes "\<bar>w - v\<bar> \<le> 1 / 10 ^ 13"
    and "\<bar>R - (v - 5)\<bar> \<le> 1 / 10 ^ 13" and "\<bar>C - 3/4\<bar> \<le> 1 / 10 ^ 13"
    and "\<bar>T1 - t1\<bar> \<le> 1 / 10 ^ 13" and "\<bar>T2 - t2\<bar> \<le> 1 / 10 ^ 13"
    and "\<bar>T3 - t3\<bar> \<le> 1 / 10 ^ 13" and "\<bar>T4 - t4\<bar> \<le> 1 / 10 ^ 13"
    and "t2 \<le> t3"
    and "1 / 10 ^ 9 < \<bar>v - 17/4\<bar>" and "1 / 10 ^ 9 < \<bar>v - 23/4\<bar>"
    and "1 / 10 ^ 9 < \<bar>v - t1\<bar>" and "1 / 10 ^ 9 < \<bar>v - t2\<bar>"
    and "1 / 10 ^ 9 < \<bar>v - t3\<bar>" and "1 / 10 ^ 9 < \<bar>v - t4\<bar>"
  shows "d - (if \<bar>R\<bar> < C then p else 0)
           - (if T1 < w \<and> w < T2 then h else 0)
           - (if T3 < w \<and> w < T4 then h else 0)
       = (if \<bar>v - 5\<bar> < 3/4 then d - p else d)
           - (if (t1 < v \<and> v < t2) \<or> (t3 < v \<and> v < t4) then h else 0)"
proof -
  have e0: "(\<bar>R\<bar> < C) = (\<bar>v - 5\<bar> < 3/4)"
    by (rule window_robust) fact+
  have e1: "(T1 < w) = (t1 < v)" by (rule less_robust(1)) fact+
  have e2: "(w < T2) = (v < t2)" by (rule less_robust(2)) fact+
  have e3: "(T3 < w) = (t3 < v)" by (rule less_robust(1)) fact+
  have e4: "(w < T4) = (v < t4)" by (rule less_robust(2)) fact+
  show ?thesis
    unfolding e0 e1 e2 e3 e4 by (rule shoulder_cases) fact
qed

lemma round_const:
  assumes "\<bar>b\<bar> \<le> 15"
  shows "\<bar>float64_round b - b\<bar> \<le> 2 / 10 ^ 15"
proof -
  have "\<bar>float64_round b - b\<bar> \<le> 0 + 2 / 10 ^ 15"
    by (rule round_abs) (simp_all add: assms)
  then show ?thesis by simp
qed

lemma window_half: "\<bar>round_div (3/2) 2 - 3/4\<bar> \<le> 2 / 10 ^ 15"
proof -
  have "\<bar>float64_round (3/4) - 3/4\<bar> \<le> 2 / 10 ^ 15" by (rule round_const) simp
  then show ?thesis by (simp add: round_div_def)
qed

lemma window_lo: "\<bar>round_sub 5 (round_div (3/2) 2) - 17/4\<bar> \<le> 4 / 10 ^ 15"
proof -
  have "\<bar>(5 - round_div (3/2) 2) - 17/4\<bar> \<le> 2 / 10 ^ 15" using window_half by linarith
  then have "\<bar>float64_round (5 - round_div (3/2) 2) - 17/4\<bar> \<le> 2 / 10 ^ 15 + 2 / 10 ^ 15"
    by (rule round_abs) simp_all
  then show ?thesis by (simp add: round_sub_def)
qed

lemma window_hi: "\<bar>round_add 5 (round_div (3/2) 2) - 23/4\<bar> \<le> 4 / 10 ^ 15"
proof -
  have "\<bar>(5 + round_div (3/2) 2) - 23/4\<bar> \<le> 2 / 10 ^ 15" using window_half by linarith
  then have "\<bar>float64_round (5 + round_div (3/2) 2) - 23/4\<bar> \<le> 2 / 10 ^ 15 + 2 / 10 ^ 15"
    by (rule round_abs) simp_all
  then show ?thesis by (simp add: round_add_def)
qed

lemma edge_sub:
  assumes "\<bar>E - e\<bar> \<le> 4 / 10 ^ 15" and "\<bar>c\<bar> \<le> 1" and "\<bar>e - c\<bar> \<le> 15"
  shows "\<bar>round_sub E (float64_round c) - (e - c)\<bar> \<le> 1 / 10 ^ 13"
proof -
  from assms(2) have "\<bar>float64_round c - c\<bar> \<le> 2 / 10 ^ 15" by (intro round_const) simp
  with assms(1) have "\<bar>(E - float64_round c) - (e - c)\<bar> \<le> 6 / 10 ^ 15" by linarith
  then have "\<bar>float64_round (E - float64_round c) - (e - c)\<bar> \<le> 6 / 10 ^ 15 + 2 / 10 ^ 15"
    using assms(3) by (rule round_abs) simp
  then show ?thesis by (simp add: round_sub_def)
qed

lemma edge_add:
  assumes "\<bar>E - e\<bar> \<le> 4 / 10 ^ 15" and "\<bar>c\<bar> \<le> 1" and "\<bar>e + c\<bar> \<le> 15"
  shows "\<bar>round_add E (float64_round c) - (e + c)\<bar> \<le> 1 / 10 ^ 13"
proof -
  from assms(2) have "\<bar>float64_round c - c\<bar> \<le> 2 / 10 ^ 15" by (intro round_const) simp
  with assms(1) have "\<bar>(E + float64_round c) - (e + c)\<bar> \<le> 6 / 10 ^ 15" by linarith
  then have "\<bar>float64_round (E + float64_round c) - (e + c)\<bar> \<le> 6 / 10 ^ 15 + 2 / 10 ^ 15"
    using assms(3) by (rule round_abs) simp
  then show ?thesis by (simp add: round_add_def)
qed

lemma offset_near:
  assumes "\<bar>w - v\<bar> \<le> 4 / 10 ^ 14" and "0 \<le> v" and "v \<le> 10"
  shows "\<bar>round_sub w 5 - (v - 5)\<bar> \<le> 1 / 10 ^ 13"
proof -
  from assms(1) have "\<bar>(w - 5) - (v - 5)\<bar> \<le> 4 / 10 ^ 14" by simp
  then have "\<bar>float64_round (w - 5) - (v - 5)\<bar> \<le> 4 / 10 ^ 14 + 2 / 10 ^ 15"
    using assms(2,3) by (intro round_abs) simp_all
  then show ?thesis by (simp add: round_sub_def)
qed

lemma generate_data_transit:
  assumes "0 \<le> n_points"
  shows "\<exists>x g'. linspace 0 10 n_points = Inr x \<and> length x = nat n_points \<and>
           generate_data ''transit'' n_points 0 g
             = Inr ((x, map (\<lambda>w. 1 - (if \<bar>round_sub w 5\<bar> < round_div (3/2) 2 then 3/200 else 0)
                   - (if round_sub (round_sub 5 (round_div (3/2) 2)) (float64_round (3/10)) < w
                        \<and> w < round_add (round_sub 5 (round_div (3/2) 2)) (float64_round (1/10))
                      then 3/400 else 0)
                   - (if round_sub (round_add 5 (round_div (3/2) 2)) (float64_round (1/10)) < w
                        \<and> w < round_add (round_add 5 (round_div (3/2) 2)) (float64_round (3/10))
                      then 3/400 else 0)) (linspace_float64 0 10 n_points)), g')"
proof -
  from assms obtain x where x: "linspace 0 10 n_points = Inr x" "length x = nat n_points"
    using linspace_nonneg by blast
  have "generate_data ''transit'' n_points 0 g
          = Inr ((x, map (\<lambda>w. 1 - (if \<bar>round_sub w 5\<bar> < round_div (3/2) 2 then 3/200 else 0)
                   - (if round_sub (round_sub 5 (round_div (3/2) 2)) (float64_round (3/10)) < w
                        \<and> w < round_add (round_sub 5 (round_div (3/2) 2)) (float64_round (1/10))
                      then 3/400 else 0)
                   - (if round_sub (round_add 5 (round_div (3/2) 2)) (float64_round (1/10)) < w
                        \<and> w < round_add (round_add 5 (round_div (3/2) 2)) (float64_round (3/10))
                      then 3/400 else 0)) (linspace_float64 0 10 n_points)),
                 snd (random_random (nat n_points) g))"
    using x
    by (simp add: generate_data_def Let_def split_beta sub_where_three vadd_smul_zero)
  with x show ?thesis by blast
qed

lemma create_sample_data_transit:
  assumes "0 \<le> n_points"
  shows "\<exists>x g'. linspace 0 10 n_points = Inr x \<and> length x = nat n_points \<and>
           create_sample_data ''transit'' n_points 0 g
             = Inr ((x, map Fin (map (\<lambda>w. 1 - (if \<bar>round_sub w 5\<bar> < round_div (3/2) 2 then 1/50 else 0)
                   - (if round_sub (round_sub 5 (round_div (3/2) 2)) (float64_round (1/5)) < w
                        \<and> w < round_add (round_sub 5 (round_div (3/2) 2)) (float64_round (1/5))
                      then 1/100 else 0)
                   - (if round_sub (round_add 5 (round_div (3/2) 2)) (float64_round (1/5)) < w
                        \<and> w < round_add (round_add 5 (round_div (3/2) 2)) (float64_round (1/5))
                      then 1/100 else 0)) (linspace_float64 0 10 n_points)),
                    ''Sample Exoplanet Transit''), g')"
proof -
  from assms obtain x where x: "linspace 0 10 n_points = Inr x" "length x = nat n_points"
    using linspace_nonneg by blast
  have "create_sample_data ''transit'' n_points 0 g
          = Inr ((x, map Fin (map (\<lambda>w. 1 - (if \<bar>round_sub w 5\<bar> < round_div (3/2) 2 then 1/50 else 0)
                   - (if round_sub (round_sub 5 (round_div (3/2) 2)) (float64_round (1/5)) < w
                        \<and> w < round_add (round_sub 5 (round_div (3/2) 2)) (float64_round (1/5))
                      then 1/100 else 0)
                   - (if round_sub (round_add 5 (round_div (3/2) 2)) (float64_round (1/5)) < w
                        \<and> w < round_add (round_add 5 (round_div (3/2) 2)) (float64_round (1/5))
                      then 1/100 else 0)) (linspace_float64 0 10 n_points)),
                    ''Sample Exoplanet Transit''),
                 snd (random_random (nat n_points) g))"
    using x
    by (simp add: create_sample_data_def Let_def split_beta sub_where_three vadd_smul_zero)
  with x show ?thesis by blast
qed

lemma generate_data_transit_clear:
  assumes "0 \<le> n_points"
  shows "\<exists>x y g'. generate_data ''transit'' n_points 0 g = Inr ((x, y), g')
           \<and> linspace 0 10 n_points = Inr x
           \<and> length x = nat n_points \<and> length y = nat n_points
           \<and> (\<forall>i<nat n_points.
                 (\<forall>b\<in>{79/20, 17/4, 87/20, 113/20, 23/4, 121/20}. 1 / 10 ^ 9 < \<bar>x ! i - b\<bar>) \<longrightarrow>
                 y ! i = (if \<bar>x ! i - 5\<bar> < 3/4 then 1 - 3/200 else 1)
                   - (if (79/20 < x ! i \<and> x ! i < 87/20) \<or> (113/20 < x ! i \<and> x ! i < 121/20)
                      then 3/400 else 0))"
proof -
  let ?xd = "linspace_float64 0 10 n_points"
  let ?F = "(\<lambda>w::real. (1::real) - (if \<bar>round_sub w 5\<bar> < round_div (3/2) 2 then 3/200 else 0)
                   - (if round_sub (round_sub 5 (round_div (3/2) 2)) (float64_round (3/10)) < w
                        \<and> w < round_add (round_sub 5 (round_div (3/2) 2)) (float64_round (1/10))
                      then 3/400 else 0)
                   - (if round_sub (round_add 5 (round_div (3/2) 2)) (float64_round (1/10)) < w
                        \<and> w < round_add (round_add 5 (round_div (3/2) 2)) (float64_round (3/10))
                      then 3/400 else 0))"
  from generate_data_transit [OF assms, of g] obtain x g' where
    x: "linspace 0 10 n_points = Inr x" and l: "length x = nat n_points" and
    r: "generate_data ''transit'' n_points 0 g = Inr ((x, map ?F ?xd), g')"
    by blast
  have p: "map ?F ?xd ! i = (if \<bar>x ! i - 5\<bar> < 3/4 then 1 - 3/200 else 1)
                   - (if (79/20 < x ! i \<and> x ! i < 87/20) \<or> (113/20 < x ! i \<and> x ! i < 121/20)
                      then 3/400 else 0)"
    if i: "i < nat n_points" and c: "(\<forall>b\<in>{79/20, 17/4, 87/20, 113/20, 23/4, 121/20}. 1 / 10 ^ 9 < \<bar>x ! i - b\<bar>)" for i
  proof -
    define w where "w = ?xd ! i"
    define v where "v = x ! i"
    from i l have il: "i < length x" by simp
    have near: "\<bar>w - v\<bar> \<le> 4 / 10 ^ 14"
      unfolding w_def v_def by (rule linspace_float64_near [OF x il])
    have rg: "0 \<le> v" "v \<le> 10"
      using linspace_range [OF x il] by (simp_all add: v_def)
    from c have c1: "1 / 10 ^ 9 < \<bar>v - 79/20\<bar>" and c2: "1 / 10 ^ 9 < \<bar>v - 17/4\<bar>"
      and c3: "1 / 10 ^ 9 < \<bar>v - 87/20\<bar>" and c4: "1 / 10 ^ 9 < \<bar>v - 113/20\<bar>"
      and c5: "1 / 10 ^ 9 < \<bar>v - 23/4\<bar>" and c6: "1 / 10 ^ 9 < \<bar>v - 121/20\<bar>"
      by (simp_all add: v_def)
    have wv: "\<bar>w - v\<bar> \<le> 1 / 10 ^ 13" using near by simp
    have R: "\<bar>round_sub w 5 - (v - 5)\<bar> \<le> 1 / 10 ^ 13"
      by (rule offset_near [OF near rg])
    have C: "\<bar>round_div (3/2) 2 - 3/4\<bar> \<le> 1 / 10 ^ 13"
      using window_half by simp
    have T1: "\<bar>round_sub (round_sub 5 (round_div (3/2) 2)) (float64_round (3/10)) - 79/20\<bar>
                \<le> 1 / 10 ^ 13"
      using edge_sub [OF window_lo, of "3/10"] by simp
    have T2: "\<bar>round_add (round_sub 5 (round_div (3/2) 2)) (float64_round (1/10)) - 87/20\<bar>
                \<le> 1 / 10 ^ 13"
      using edge_add [OF window_lo, of "1/10"] by simp
    have T3: "\<bar>round_sub (round_add 5 (round_div (3/2) 2)) (float64_round (1/10)) - 113/20\<bar>
                \<le> 1 / 10 ^ 13"
      using edge_sub [OF window_hi, of "1/10"] by simp
    have T4: "\<bar>round_add (round_add 5 (round_div (3/2) 2)) (float64_round (3/10)) - 121/20\<bar>
                \<le> 1 / 10 ^ 13"
      using edge_add [OF window_hi, of "3/10"] by simp
    have o: "(87/20::real) \<le> 113/20" by simp
    have "?F w = (if \<bar>v - 5\<bar> < 3/4 then 1 - 3/200 else 1)
                   - (if (79/20 < v \<and> v < 87/20) \<or> (113/20 < v \<and> v < 121/20)
                      then 3/400 else 0)"
      by (rule mask_profile [OF wv R C T1 T2 T3 T4 o c2 c5 c1 c3 c4 c6])
    moreover from i have "map ?F ?xd ! i = ?F w" by (simp add: w_def)
    ultimately show ?thesis by (simp only: v_def)
  qed
  show ?thesis
    apply (rule exI [of _ x])
    apply (rule exI [of _ "map ?F ?xd"])
    apply (rule exI [of _ g'])
    apply (intro conjI allI impI)
        apply (rule r)
       apply (rule x)
      apply (rule l)
     apply simp
    apply (rule p)
     apply assumption+
    done
qed

lemma create_sample_data_transit_clear:
  assumes "0 \<le> n_points"
  shows "\<exists>x y g'. create_sample_data ''transit'' n_points 0 g = Inr ((x, map Fin y, ''Sample Exoplanet Transit''), g')
           \<and> linspace 0 10 n_points = Inr x
           \<and> length x = nat n_points \<and> length y = nat n_points
           \<and> (\<forall>i<nat n_points.
                 (\<forall>b\<in>{81/20, 17/4, 89/20, 111/20, 23/4, 119/20}. 1 / 10 ^ 9 < \<bar>x ! i - b\<bar>) \<longrightarrow>
                 y ! i = (if \<bar>x ! i - 5\<bar> < 3/4 then 1 - 1/50 else 1)
                   - (if (81/20 < x ! i \<and> x ! i < 89/20) \<or> (111/20 < x ! i \<and> x ! i < 119/20)
                      then 1/100 else 0))"
proof -
  let ?xd = "linspace_float64 0 10 n_points"
  let ?F = "(\<lambda>w::real. (1::real) - (if \<bar>round_sub w 5\<bar> < round_div (3/2) 2 then 1/50 else 0)
                   - (if round_sub (round_sub 5 (round_div (3/2) 2)) (float64_round (1/5)) < w
                        \<and> w < round_add (round_sub 5 (round_div (3/2) 2)) (float64_round (1/5))
                      then 1/100 else 0)
                   - (if round_sub (round_add 5 (round_div (3/2) 2)) (float64_round (1/5)) < w
                        \<and> w < round_add (round_add 5 (round_div (3/2) 2)) (float64_round (1/5))
                      then 1/100 else 0))"
  from create_sample_data_transit [OF assms, of g] obtain x g' where
    x: "linspace 0 10 n_points = Inr x" and l: "length x = nat n_points" and
    r: "create_sample_data ''transit'' n_points 0 g = Inr ((x, map Fin (map ?F ?xd), ''Sample Exoplanet Transit''), g')"
    by blast
  have p: "map ?F ?xd ! i = (if \<bar>x ! i - 5\<bar> < 3/4 then 1 - 1/50 else 1)
                   - (if (81/20 < x ! i \<and> x ! i < 89/20) \<or> (111/20 < x ! i \<and> x ! i < 119/20)
                      then 1/100 else 0)"
    if i: "i < nat n_points" and c: "(\<forall>b\<in>{81/20, 17/4, 89/20, 111/20, 23/4, 119/20}. 1 / 10 ^ 9 < \<bar>x ! i - b\<bar>)" for i
  proof -
    define w where "w = ?xd ! i"
    define v where "v = x ! i"
    from i l have il: "i < length x" by simp
    have near: "\<bar>w - v\<bar> \<le> 4 / 10 ^ 14"
      unfolding w_def v_def by (rule linspace_float64_near [OF x il])
    have rg: "0 \<le> v" "v \<le> 10"
      using linspace_range [OF x il] by (simp_all add: v_def)
    from c have c1: "1 / 10 ^ 9 < \<bar>v - 81/20\<bar>" and c2: "1 / 10 ^ 9 < \<bar>v - 17/4\<bar>"
      and c3: "1 / 10 ^ 9 < \<bar>v - 89/20\<bar>" and c4: "1 / 10 ^ 9 < \<bar>v - 111/20\<bar>"
      and c5: "1 / 10 ^ 9 < \<bar>v - 23/4\<bar>" and c6: "1 / 10 ^ 9 < \<bar>v - 119/20\<bar>"
      by (simp_all add: v_def)
    have wv: "\<bar>w - v\<bar> \<le> 1 / 10 ^ 13" using near by simp
    have R: "\<bar>round_sub w 5 - (v - 5)\<bar> \<le> 1 / 10 ^ 13"
      by (rule offset_near [OF near rg])
    have C: "\<bar>round_div (3/2) 2 - 3/4\<bar> \<le> 1 / 10 ^ 13"
      using window_half by simp
    have T1: "\<bar>round_sub (round_sub 5 (round_div (3/2) 2)) (float64_round (1/5)) - 81/20\<bar>
                \<le> 1 / 10 ^ 13"
      using edge_sub [OF window_lo, of "1/5"] by simp
    have T2: "\<bar>round_add (round_sub 5 (round_div (3/2) 2)) (float64_round (1/5)) - 89/20\<bar>
                \<le> 1 / 10 ^ 13"
      using edge_add [OF window_lo, of "1/5"] by simp
    have T3: "\<bar>round_sub (round_add 5 (round_div (3/2) 2)) (float64_round (1/5)) - 111/20\<bar>
                \<le> 1 / 10 ^ 13"
      using edge_sub [OF window_hi, of "1/5"] by simp
    have T4: "\<bar>round_add (round_add 5 (round_div (3/2) 2)) (float64_round (1/5)) - 119/20\<bar>
                \<le> 1 / 10 ^ 13"
      using edge_add [OF window_hi, of "1/5"] by simp
    have o: "(89/20::real) \<le> 111/20" by simp
    have "?F w = (if \<bar>v - 5\<bar> < 3/4 then 1 - 1/50 else 1)
                   - (if (81/20 < v \<and> v < 89/20) \<or> (111/20 < v \<and> v < 119/20)
                      then 1/100 else 0)"
      by (rule mask_profile [OF wv R C T1 T2 T3 T4 o c2 c5 c1 c3 c4 c6])
    moreover from i have "map ?F ?xd ! i = ?F w" by (simp add: w_def)
    ultimately show ?thesis by (simp only: v_def)
  qed
  show ?thesis
    apply (rule exI [of _ x])
    apply (rule exI [of _ "map ?F ?xd"])
    apply (rule exI [of _ g'])
    apply (intro conjI allI impI)
        apply (rule r)
       apply (rule x)
      apply (rule l)
     apply simp
    apply (rule p)
     apply assumption+
    done
qed

lemma linspace_11: "linspace 0 10 11 = Inr [0, 1, 2, 3, 4, 5, 6, 7, 8, 9, 10]"
  by (simp add: linspace_eq upt_rec)

lemma linspace_8: "linspace 0 10 8 = Inr [0, 10/7, 20/7, 30/7, 40/7, 50/7, 60/7, 10]"
  by (simp add: linspace_eq upt_rec)


lemma transit_11:
  "returned (generate_data ''transit'' 11 0 (constant_source 0 0))
     = Inr ([0, 1, 2, 3, 4, 5, 6, 7, 8, 9, 10], [1, 1, 1, 1, 397/400, 197/200, 397/400, 1, 1, 1, 1])"
proof -
  let ?p = "\<lambda>v::real. (if \<bar>v - 5\<bar> < 3/4 then 1 - 3/200 else 1)
                  - (if (79/20 < v \<and> v < 87/20) \<or> (113/20 < v \<and> v < 121/20)
                     then 3/400 else 0)"
  have n: "(0::int) \<le> 11" by simp
  from generate_data_transit_clear [OF n, of "constant_source 0 0"] obtain x y g' where
    r: "generate_data ''transit'' 11 0 (constant_source 0 0) = Inr ((x, y), g')" and
    x: "linspace 0 10 11 = Inr x" and
    lx: "length x = nat 11" and ly: "length y = nat 11" and
    p: "\<forall>i<nat 11. (\<forall>b\<in>{79/20, 17/4, 87/20, 113/20, 23/4, 121/20}. 1 / 10 ^ 9 < \<bar>x ! i - b\<bar>) \<longrightarrow> y ! i = ?p (x ! i)"
    by blast
  from x have xe: "x = [0, 1, 2, 3, 4, 5, 6, 7, 8, 9, 10]" by (simp add: linspace_11)
  have c: "\<forall>v\<in>set x. (\<forall>b\<in>{79/20, 17/4, 87/20, 113/20, 23/4, 121/20}. 1 / 10 ^ 9 < \<bar>v - b\<bar>)"
    unfolding xe by simp
  have "y = map ?p x"
  proof (rule nth_equalityI)
    show "length y = length (map ?p x)" by (simp add: lx ly)
  next
    fix i assume "i < length y"
    with ly lx have i: "i < nat 11" and ix: "i < length x" by simp_all
    from ix have "x ! i \<in> set x" by simp
    with c have "(\<forall>b\<in>{79/20, 17/4, 87/20, 113/20, 23/4, 121/20}. 1 / 10 ^ 9 < \<bar>x ! i - b\<bar>)" by blast
    with p i have "y ! i = ?p (x ! i)" by blast
    with ix show "y ! i = map ?p x ! i" by simp
  qed
  then have "y = [1, 1, 1, 1, 397/400, 197/200, 397/400, 1, 1, 1, 1]" unfolding xe by simp
  with r xe show ?thesis by (simp add: returned_def)
qed

lemma transit_8:
  "returned (create_sample_data ''transit'' 8 0 (constant_source 0 0))
     = Inr ([0, 10/7, 20/7, 30/7, 40/7, 50/7, 60/7, 10],
            map Fin [1, 1, 1, 97/100, 97/100, 1, 1, 1], ''Sample Exoplanet Transit'')"
proof -
  let ?p = "\<lambda>v::real. (if \<bar>v - 5\<bar> < 3/4 then 1 - 1/50 else 1)
                  - (if (81/20 < v \<and> v < 89/20) \<or> (111/20 < v \<and> v < 119/20)
                     then 1/100 else 0)"
  have n: "(0::int) \<le> 8" by simp
  from create_sample_data_transit_clear [OF n, of "constant_source 0 0"] obtain x y g' where
    r: "create_sample_data ''transit'' 8 0 (constant_source 0 0) = Inr ((x, map Fin y, ''Sample Exoplanet Transit''), g')" and
    x: "linspace 0 10 8 = Inr x" and
    lx: "length x = nat 8" and ly: "length y = nat 8" and
    p: "\<forall>i<nat 8. (\<forall>b\<in>{81/20, 17/4, 89/20, 111/20, 23/4, 119/20}. 1 / 10 ^ 9 < \<bar>x ! i - b\<bar>) \<longrightarrow> y ! i = ?p (x ! i)"
    by blast
  from x have xe: "x = [0, 10/7, 20/7, 30/7, 40/7, 50/7, 60/7, 10]" by (simp add: linspace_8)
  have c: "\<forall>v\<in>set x. (\<forall>b\<in>{81/20, 17/4, 89/20, 111/20, 23/4, 119/20}. 1 / 10 ^ 9 < \<bar>v - b\<bar>)"
    unfolding xe by simp
  have "y = map ?p x"
  proof (rule nth_equalityI)
    show "length y = length (map ?p x)" by (simp add: lx ly)
  next
    fix i assume "i < length y"
    with ly lx have i: "i < nat 8" and ix: "i < length x" by simp_all
    from ix have "x ! i \<in> set x" by simp
    with c have "(\<forall>b\<in>{81/20, 17/4, 89/20, 111/20, 23/4, 119/20}. 1 / 10 ^ 9 < \<bar>x ! i - b\<bar>)" by blast
    with p i have "y ! i = ?p (x ! i)" by blast
    with ix show "y ! i = map ?p x ! i" by simp
  qed
  then have "y = [1, 1, 1, 97/100, 97/100, 1, 1, 1]" unfolding xe by simp
  with r xe show ?thesis by (simp add: returned_def)
qed

text \<open>
  C4, as the claim states it, fails on the ingress and egress shoulders. In the dashboard
  with \<open>n_points = 11\<close> the samples \<open>x = 4\<close> and \<open>x = 6\<close> lie outside the transit window
  and yet \<open>y = 0.9925\<close>, not the baseline. In the library with \<open>n_points = 8\<close> the sample
  \<open>x = 30/7\<close> lies inside the window and \<open>y = 0.97\<close>, the baseline reduced by one and a
  half times the depth \<open>0.02\<close>.
\<close>

theorem transit_shoulders:
  "returned (generate_data ''transit'' 11 0 (constant_source 0 0))
     = Inr ([0, 1, 2, 3, 4, 5, 6, 7, 8, 9, 10],
            [1, 1, 1, 1, 397/400, 197/200, 397/400, 1, 1, 1, 1])
   \<and> \<not> \<bar>(4::real) - 5\<bar> < 3/4
   \<and> returned (create_sample_data ''transit'' 8 0 (constant_source 0 0))
     = Inr ([0, 10/7, 20/7, 30/7, 40/7, 50/7, 60/7, 10],
            map Fin [1, 1, 1, 97/100, 97/100, 1, 1, 1], ''Sample Exoplanet Transit'')
   \<and> \<bar>(30/7::real) - 5\<bar> < 3/4"
proof -
  have a: "\<not> \<bar>(4::real) - 5\<bar> < 3/4" by simp
  have b: "\<bar>(30/7::real) - 5\<bar> < 3/4" by simp
  from transit_11 a transit_8 b show ?thesis by (intro conjI)
qed

text \<open>
  C4, amended. For every \<open>n_points \<ge> 1\<close> and \<open>noise_level = 0\<close>, at every sample \<open>x\<close> that
  is farther than \<open>10\<^sup>-\<^sup>9\<close> from the six edges of the masks (dashboard: \<open>3.95\<close>, \<open>4.25\<close>,
  \<open>4.35\<close>, \<open>5.65\<close>, \<open>5.75\<close>, \<open>6.05\<close>; library: \<open>4.05\<close>, \<open>4.25\<close>, \<open>4.45\<close>, \<open>5.55\<close>,
  \<open>5.75\<close>, \<open>5.95\<close>) the transit series is, outside the two shoulder intervals, the
  baseline \<open>1\<close> when \<open>x\<close> is outside the transit window and the baseline reduced by
  exactly the depth (\<open>0.015\<close> in the dashboard, \<open>0.02\<close> in the library) when
  \<open>|x - 5| < 0.75\<close>; on a shoulder interval (dashboard: \<open>3.95 < x < 4.35\<close> and
  \<open>5.65 < x < 6.05\<close>; library: \<open>4.05 < x < 4.45\<close> and \<open>5.55 < x < 5.95\<close>) a further half
  depth is subtracted. A sample within \<open>10\<^sup>-\<^sup>9\<close> of an edge falls on the side that the
  rounding of the grid and of the edge decides: the library at \<open>n_points = 201\<close> holds
  \<open>x = 5.550000000000001\<close> at index 111, above the edge \<open>5.55\<close>, and subtracts the
  half depth there.
\<close>

theorem transit_profile:
  assumes "1 \<le> n_points"
  shows "(\<exists>x y g'. generate_data ''transit'' n_points 0 g = Inr ((x, y), g')
            \<and> length x = nat n_points \<and> length y = nat n_points
            \<and> (\<forall>i<nat n_points.
                 (\<forall>b\<in>{79/20, 17/4, 87/20, 113/20, 23/4, 121/20}. 1 / 10 ^ 9 < \<bar>x ! i - b\<bar>) \<longrightarrow>
                 y ! i = (if \<bar>x ! i - 5\<bar> < 3/4 then 1 - 3/200 else 1)
                         - (if (79/20 < x ! i \<and> x ! i < 87/20) \<or> (113/20 < x ! i \<and> x ! i < 121/20)
                            then 3/400 else 0)))
       \<and> (\<exists>x y title g'. create_sample_data ''transit'' n_points 0 g = Inr ((x, map Fin y, title), g')
            \<and> length x = nat n_points \<and> length y = nat n_points
            \<and> (\<forall>i<nat n_points.
                 (\<forall>b\<in>{81/20, 17/4, 89/20, 111/20, 23/4, 119/20}. 1 / 10 ^ 9 < \<bar>x ! i - b\<bar>) \<longrightarrow>
                 y ! i = (if \<bar>x ! i - 5\<bar> < 3/4 then 1 - 1/50 else 1)
                         - (if (81/20 < x ! i \<and> x ! i < 89/20) \<or> (111/20 < x ! i \<and> x ! i < 119/20)
                            then 1/100 else 0)))"
proof (rule conjI)
  from assms have n: "0 \<le> n_points" by simp
  from generate_data_transit_clear [OF n, of g] show "(\<exists>x y g'. generate_data ''transit'' n_points 0 g = Inr ((x, y), g')
            \<and> length x = nat n_points \<and> length y = nat n_points
            \<and> (\<forall>i<nat n_points.
                 (\<forall>b\<in>{79/20, 17/4, 87/20, 113/20, 23/4, 121/20}. 1 / 10 ^ 9 < \<bar>x ! i - b\<bar>) \<longrightarrow>
                 y ! i = (if \<bar>x ! i - 5\<bar> < 3/4 then 1 - 3/200 else 1)
                         - (if (79/20 < x ! i \<and> x ! i < 87/20) \<or> (113/20 < x ! i \<and> x ! i < 121/20)
                            then 3/400 else 0)))"
    by blast
next
  from assms have n: "0 \<le> n_points" by simp
  from create_sample_data_transit_clear [OF n, of g] show "(\<exists>x y title g'. create_sample_data ''transit'' n_points 0 g = Inr ((x, map Fin y, title), g')
            \<and> length x = nat n_points \<and> length y = nat n_points
            \<and> (\<forall>i<nat n_points.
                 (\<forall>b\<in>{81/20, 17/4, 89/20, 111/20, 23/4, 119/20}. 1 / 10 ^ 9 < \<bar>x ! i - b\<bar>) \<longrightarrow>
                 y ! i = (if \<bar>x ! i - 5\<bar> < 3/4 then 1 - 1/50 else 1)
                         - (if (81/20 < x ! i \<and> x ! i < 89/20) \<or> (111/20 < x ! i \<and> x ! i < 119/20)
                            then 1/100 else 0)))"
    by blast
qed

text \<open>The statement at eleven samples, where every sample is clear of the edges.\<close>

theorem transit_profile_witness:
  "(1::int) \<le> 11
   \<and> (\<exists>x y g'. generate_data ''transit'' 11 0 (constant_source 0 0) = Inr ((x, y), g')
         \<and> length x = nat 11 \<and> length y = nat 11
         \<and> (\<forall>i<nat 11.
              (\<forall>b\<in>{79/20, 17/4, 87/20, 113/20, 23/4, 121/20}. 1 / 10 ^ 9 < \<bar>x ! i - b\<bar>) \<longrightarrow>
              y ! i = (if \<bar>x ! i - 5\<bar> < 3/4 then 1 - 3/200 else 1)
                      - (if (79/20 < x ! i \<and> x ! i < 87/20) \<or> (113/20 < x ! i \<and> x ! i < 121/20)
                         then 3/400 else 0)))
   \<and> (\<exists>x y title g'. create_sample_data ''transit'' 11 0 (constant_source 0 0) = Inr ((x, map Fin y, title), g')
         \<and> length x = nat 11 \<and> length y = nat 11
         \<and> (\<forall>i<nat 11.
              (\<forall>b\<in>{81/20, 17/4, 89/20, 111/20, 23/4, 119/20}. 1 / 10 ^ 9 < \<bar>x ! i - b\<bar>) \<longrightarrow>
              y ! i = (if \<bar>x ! i - 5\<bar> < 3/4 then 1 - 1/50 else 1)
                      - (if (81/20 < x ! i \<and> x ! i < 89/20) \<or> (111/20 < x ! i \<and> x ! i < 119/20)
                         then 1/100 else 0)))"
proof -
  have n: "(1::int) \<le> 11" by simp
  note T = transit_profile [OF n, of "constant_source 0 0"]
  show ?thesis
    by (intro conjI) (rule n, rule T [THEN conjunct1], rule T [THEN conjunct2])
qed


section \<open>The horizontal axis\<close>

lemma linspace_grid:
  assumes "2 \<le> num"
  shows "\<exists>x. linspace 0 10 num = Inr x \<and> sorted_wrt (<) x \<and> hd x = 0 \<and> last x = 10"
proof -
  let ?n = "nat num"
  let ?f = "\<lambda>i. real i * ((10 - 0) / real (?n - 1)) + 0"
  from assms have n: "2 \<le> ?n" by simp
  then have step: "0 < (10 - 0) / real (?n - 1)" by simp
  have eq: "linspace 0 10 num = Inr (map ?f [0..<?n])"
    using assms by (simp add: linspace_eq)
  have cancel: "c * ((10 - 0) / c) + 0 = 10" if "c \<noteq> 0" for c :: real
    using that by simp
  have mono: "real i * c < real j * c" if "i < j" and "0 < c" for i j :: nat and c :: real
    using that by simp
  have s: "sorted_wrt (<) (map ?f [0..<?n])"
    unfolding sorted_wrt_iff_nth_less
  proof (intro allI impI)
    fix i j assume ij: "i < j" and j: "j < length (map ?f [0..<?n])"
    from j have j': "j < ?n" by simp
    with ij have i': "i < ?n" by simp
    from mono [OF ij step] show "map ?f [0..<?n] ! i < map ?f [0..<?n] ! j"
      using i' j' by simp
  qed
  have ne: "[0..<?n] \<noteq> []" using n by simp
  have h: "hd (map ?f [0..<?n]) = 0"
    using n by (simp add: hd_map [OF ne])
  have d: "real (?n - 1) \<noteq> 0" using n by simp
  have "last (map ?f [0..<?n]) = ?f (?n - 1)"
    using n by (simp add: last_map [OF ne])
  also have "\<dots> = 10" by (rule cancel [OF d])
  finally have l: "last (map ?f [0..<?n]) = 10" .
  from eq s h l show ?thesis by simp
qed

lemma generate_data_x:
  assumes "0 \<le> n_points" and "linspace 0 10 n_points = Inr x"
  shows "\<exists>y g'. generate_data data_type n_points noise_level g = Inr ((x, y), g')"
  using assms by (simp add: generate_data_def Let_def split_beta)

lemma create_sample_data_x:
  assumes "1 \<le> n_points" and "linspace 0 10 n_points = Inr x"
  shows "\<exists>y title g'. create_sample_data data_type n_points noise_level g = Inr ((x, y, title), g')"
proof -
  from assms have "length x = nat n_points"
    using linspace_nonneg [of n_points 0 10] by auto
  with assms have "x \<noteq> []" by auto
  then have "map (\<lambda>v. fdiv (power_neg v 5) (fsub (fexp (fdiv (Fin 1.0) (Fin (v + 0.1)))) (Fin 1))) x \<noteq> []"
    by simp
  then obtain m where
    "np_max (map (\<lambda>v. fdiv (power_neg v 5) (fsub (fexp (fdiv (Fin 1.0) (Fin (v + 0.1)))) (Fin 1))) x) = Inr m"
    using np_max_nonempty by blast
  with assms show ?thesis
    by (simp add: create_sample_data_def Let_def split_beta)
qed

text \<open>
  Claim C7.  For every n_points of at least 2 and every data type, both
  generators return a horizontal axis x that is strictly increasing, starts at
  0 and ends at 10.
\<close>

theorem grid_increasing:
  assumes "2 \<le> n_points"
  shows "(\<exists>x y g'. generate_data data_type n_points noise_level g = Inr ((x, y), g')
            \<and> sorted_wrt (<) x \<and> hd x = 0 \<and> last x = 10)
       \<and> (\<exists>x y title g'.
            create_sample_data data_type n_points noise_level g = Inr ((x, y, title), g')
            \<and> sorted_wrt (<) x \<and> hd x = 0 \<and> last x = 10)"
proof -
  from linspace_grid [OF assms] obtain x where
    x: "linspace 0 10 n_points = Inr x" and p: "sorted_wrt (<) x" "hd x = 0" "last x = 10"
    by blast
  from assms have n0: "0 \<le> n_points" and n1: "1 \<le> n_points" by simp_all
  from generate_data_x [OF n0 x] obtain y g' where
    "generate_data data_type n_points noise_level g = Inr ((x, y), g')" by blast
  moreover from create_sample_data_x [OF n1 x] obtain y' t g'' where
    "create_sample_data data_type n_points noise_level g = Inr ((x, y', t), g'')" by blast
  ultimately show ?thesis using p by blast
qed

text \<open>
  The statement at three samples of the sine data.
\<close>

theorem grid_increasing_witness:
  "(2::int) \<le> 3
   \<and> (\<exists>x y g'. generate_data ''sine'' 3 (1/10) (constant_source 0 0) = Inr ((x, y), g')
         \<and> sorted_wrt (<) x \<and> hd x = 0 \<and> last x = 10)
   \<and> (\<exists>x y title g'.
         create_sample_data ''sine'' 3 (1/10) (constant_source 0 0) = Inr ((x, y, title), g')
         \<and> sorted_wrt (<) x \<and> hd x = 0 \<and> last x = 10)"
proof -
  have n: "(2::int) \<le> 3" by simp
  note T = grid_increasing [OF n, of "''sine''" "1/10" "constant_source 0 0"]
  show ?thesis
    by (intro conjI) (rule n, rule T [THEN conjunct1], rule T [THEN conjunct2])
qed


section \<open>The blackbody series\<close>

lemma fold_fmax_NaN: "fold (\<lambda>b a. fmax a b) vs NaN = NaN"
  by (induction vs) simp_all

lemma fmax_PInf: "fmax PInf b = PInf \<or> fmax PInf b = NaN"
  by (cases b) simp_all

lemma fold_fmax_PInf:
  "fold (\<lambda>b a. fmax a b) vs PInf = PInf \<or> fold (\<lambda>b a. fmax a b) vs PInf = NaN"
proof (induction vs)
  case Nil
  show ?case by simp
next
  case (Cons v vs)
  from fmax_PInf [of v] show ?case
  proof
    assume "fmax PInf v = PInf"
    with Cons show ?thesis by simp
  next
    assume "fmax PInf v = NaN"
    then show ?thesis by (simp add: fold_fmax_NaN)
  qed
qed

lemma blackbody_origin:
  "fdiv (power_neg 0 5) (fsub (fexp (fdiv (Fin 1.0) (Fin (0 + 0.1)))) (Fin 1)) = PInf"
proof -
  have "(1::real) \<le> exp 10" by simp
  then show ?thesis by (simp add: power_neg_def fsub_def)
qed

lemma linspace_hd:
  assumes "1 \<le> num"
  shows "\<exists>xs. linspace 0 10 num = Inr (0 # xs)"
proof -
  let ?f = "\<lambda>i. real i * ((10 - 0) / real (nat num - 1)) + 0"
  from assms have "[0..<nat num] = 0 # [1..<nat num]" by (simp add: upt_rec)
  then have "map ?f [0..<nat num] = 0 # map ?f [1..<nat num]" by simp
  with assms show ?thesis by (simp add: linspace_eq)
qed

lemma create_sample_data_blackbody:
  assumes "linspace 0 10 n_points = Inr x"
    and "np_max (map (\<lambda>v. fdiv (power_neg v 5)
                               (fsub (fexp (fdiv (Fin 1.0) (Fin (v + 0.1)))) (Fin 1))) x) = Inr m"
  shows "create_sample_data ''blackbody'' n_points noise_level g =
           Inr ((x,
                 map2 fadd
                   (map (\<lambda>v. fdiv v m)
                      (map (\<lambda>v. fdiv (power_neg v 5)
                                     (fsub (fexp (fdiv (Fin 1.0) (Fin (v + 0.1)))) (Fin 1))) x))
                   (map Fin (smul (noise_level * 0.05) (fst (random_random (nat n_points) g)))),
                 ''Sample Blackbody Spectrum''),
                snd (random_random (nat n_points) g))"
  using assms by (simp add: create_sample_data_def Let_def split_beta)

text \<open>
  Claim C6 says that for every n_points of at least 1 the blackbody series is computed
  without a division by zero and holds only finite values with maximum 1.  The code
  does otherwise for every such n_points and every noise level: the first sample is
  x = 0, where \<^verbatim>\<open>x ** -5\<close> divides by zero and yields infinity; the maximum of the
  unnormalised series is then not finite, the first value of the returned y is the
  NaN of infinity divided by infinity, and the maximum of the returned y is NaN,
  not 1.
\<close>

theorem blackbody_first_sample:
  assumes "1 \<le> n_points"
  shows "\<exists>x y title g'.
           create_sample_data ''blackbody'' n_points noise_level g = Inr ((x, y, title), g')
           \<and> hd x = 0 \<and> power_neg (hd x) 5 = PInf
           \<and> hd y = NaN \<and> \<not> is_finite (hd y) \<and> np_max y = Inr NaN"
proof -
  let ?F = "\<lambda>v. fdiv (power_neg v 5) (fsub (fexp (fdiv (Fin 1.0) (Fin (v + 0.1)))) (Fin 1))"
  from linspace_hd [OF assms] obtain xs where x: "linspace 0 10 n_points = Inr (0 # xs)"
    by blast
  have F: "map ?F (0 # xs) = PInf # map ?F xs"
    using blackbody_origin by simp
  define m where "m = fold (\<lambda>b a. fmax a b) (map ?F xs) PInf"
  have mx: "np_max (map ?F (0 # xs)) = Inr m"
    unfolding F by (simp add: np_max_def m_def)
  have "m = PInf \<or> m = NaN"
    unfolding m_def by (rule fold_fmax_PInf)
  then have d: "fdiv PInf m = NaN" by auto
  define B where "B = map Fin (smul (noise_level * 0.05) (fst (random_random (nat n_points) g)))"
  from assms have "length B = Suc (nat n_points - 1)" by (simp add: B_def)
  then obtain b bs where B: "B = b # bs" by (cases B) auto
  define y where "y = map2 fadd (map (\<lambda>v. fdiv v m) (map ?F (0 # xs))) B"
  have y: "y = NaN # map2 fadd (map (\<lambda>v. fdiv v m) (map ?F xs)) bs"
    unfolding y_def F B by (simp add: d)
  have "create_sample_data ''blackbody'' n_points noise_level g =
          Inr ((0 # xs, y, ''Sample Blackbody Spectrum''), snd (random_random (nat n_points) g))"
    unfolding y_def B_def by (rule create_sample_data_blackbody [OF x mx])
  moreover have "hd y = NaN" "np_max y = Inr NaN"
    unfolding y by (simp_all add: np_max_def fold_fmax_NaN)
  moreover have "power_neg (hd (0 # xs)) 5 = PInf" by (simp add: power_neg_def)
  ultimately show ?thesis by (simp add: is_finite_def)
qed

text \<open>The statement at five samples without noise.\<close>

theorem blackbody_first_sample_witness:
  "(1::int) \<le> 5
   \<and> (\<exists>x y title g'.
         create_sample_data ''blackbody'' 5 0 (constant_source 0 0) = Inr ((x, y, title), g')
         \<and> hd x = 0 \<and> power_neg (hd x) 5 = PInf
         \<and> hd y = NaN \<and> \<not> is_finite (hd y) \<and> np_max y = Inr NaN)"
proof -
  have n: "(1::int) \<le> 5" by simp
  show ?thesis
    by (intro conjI) (rule n, rule blackbody_first_sample [OF n])
qed

text \<open>The whole result at five samples without noise: the other four values are the
  finite values divided by infinity, that is 0.\<close>

lemma blackbody_example:
  "create_sample_data ''blackbody'' 5 0 g =
     Inr (([0, 5/2, 5, 15/2, 10], [NaN, Fin 0, Fin 0, Fin 0, Fin 0], ''Sample Blackbody Spectrum''),
          snd (random_random 5 g))"
  by (simp add: create_sample_data_def linspace_5 Let_def split_beta power_neg_def fsub_def
        np_max_def random_random_def smul_def upt_rec)


section \<open>The random source at noise level 0\<close>

lemma smul_zero_random: "smul 0 (fst (random_random n g)) = replicate n 0"
  by (simp add: smul_def random_random_def map_replicate_const)

lemma create_sample_data_noise_free:
  "returned (create_sample_data data_type n_points 0 g) =
   returned (create_sample_data data_type n_points 0 g')"
  by (simp add: create_sample_data_def returned_def Let_def split_beta smul_zero_random
        split: sum.splits)

lemma generate_data_noise_free:
  assumes "data_type \<in> {''sine'', ''exponential'', ''spectrum'', ''lightcurve'', ''transit''}"
  shows "returned (generate_data data_type n_points 0 g) =
         returned (generate_data data_type n_points 0 g')"
proof -
  have "returned (generate_data d n_points 0 g) = returned (generate_data d n_points 0 g')"
    if "d = ''sine'' \<or> d = ''exponential'' \<or> d = ''spectrum'' \<or> d = ''lightcurve''
          \<or> d = ''transit''" for d
    using that
    by (elim disjE)
       (simp_all add: generate_data_def returned_def Let_def split_beta smul_zero_random
          split: sum.splits)
  with assms show ?thesis by simp
qed

lemma random_walk_depends:
  assumes "data_type \<notin> {''sine'', ''exponential'', ''spectrum'', ''lightcurve'', ''transit''}"
    and "1 \<le> n_points"
  shows "returned (generate_data data_type n_points 0 (constant_source 0 0)) \<noteq>
         returned (generate_data data_type n_points 0 (constant_source 0 1))"
proof -
  from assms(2) obtain x where x: "linspace 0 10 n_points = Inr x"
    using linspace_nonneg [of n_points 0 10] by auto
  from assms(2) obtain k where n: "nat n_points = Suc k" by (cases "nat n_points") auto
  have up: "[0..<Suc k] = 0 # [Suc 0..<Suc k]" by (simp add: upt_conv_Cons)
  have w0: "fst (random_randn (Suc k) (constant_source 0 0)) = 0 # map (\<lambda>_. 0) [Suc 0..<Suc k]"
    unfolding random_randn_def constant_source_def up by simp
  have w1: "fst (random_randn (Suc k) (constant_source 0 1)) = 1 # map (\<lambda>_. 1) [Suc 0..<Suc k]"
    unfolding random_randn_def constant_source_def up by simp
  have u: "fst (random_random (Suc k) h)
             = uniform_draws h 0 # map (uniform_draws h) [Suc 0..<Suc k]" for h
    unfolding random_random_def up by simp
  have a: "hd (snd (fst (projr (generate_data data_type n_points 0 (constant_source 0 0))))) = 0"
    using assms(1)
    by (simp add: generate_data_def x Let_def split_beta n w0 u smul_def cumsum_def vadd_def)
  have b: "hd (snd (fst (projr (generate_data data_type n_points 0 (constant_source 0 1))))) = 3/10"
    using assms(1)
    by (simp add: generate_data_def x Let_def split_beta n w1 u smul_def cumsum_def vadd_def)
  have r: "returned r1 = returned r2 \<Longrightarrow> isl r1 = isl r2 \<and> fst (projr r1) = fst (projr r2)
             \<or> isl r1" for r1 r2 :: "error + ((real list \<times> real list) \<times> rng)"
    by (cases r1; cases r2) (simp_all add: returned_def)
  have i: "\<not> isl (generate_data data_type n_points 0 (constant_source 0 0))"
    using assms(1) by (simp add: generate_data_def x Let_def split_beta)
  show ?thesis
  proof
    assume "returned (generate_data data_type n_points 0 (constant_source 0 0)) =
            returned (generate_data data_type n_points 0 (constant_source 0 1))"
    from r [OF this] i have
      "fst (projr (generate_data data_type n_points 0 (constant_source 0 0))) =
       fst (projr (generate_data data_type n_points 0 (constant_source 0 1)))" by blast
    with a b show False by simp
  qed
qed

text \<open>
  Claim C8.  With \<open>noise_level = 0\<close> the returned \<open>(x, y)\<close> does not depend on the random
  source: whatever the states \<open>g\<close> and \<open>g'\<close> of the source at two calls with the same
  \<open>data_type\<close> and \<open>n_points\<close> (in particular \<open>g'\<close> the state the first call leaves), the two
  calls return the same. This holds in every branch of the library's generator (sine,
  exponential, spectrum, lightcurve, transit, blackbody and the linear default; the
  blackbody series holds the same NaN in both) and in the five named branches of the
  dashboard's generator. The dashboard's remaining branch, the random walk, depends on
  the source: for every \<open>n_points \<ge> 1\<close> there are two sources with different results.
\<close>

theorem noise_free_deterministic:
  "returned (create_sample_data data_type n_points 0 g)
     = returned (create_sample_data data_type n_points 0 g')
   \<and> (data_type \<in> {''sine'', ''exponential'', ''spectrum'', ''lightcurve'', ''transit''} \<longrightarrow>
        returned (generate_data data_type n_points 0 g)
          = returned (generate_data data_type n_points 0 g'))
   \<and> (data_type \<notin> {''sine'', ''exponential'', ''spectrum'', ''lightcurve'', ''transit''} \<and> 1 \<le> n_points \<longrightarrow>
        (\<exists>h h'. returned (generate_data data_type n_points 0 h)
                   \<noteq> returned (generate_data data_type n_points 0 h')))"
proof (intro conjI impI)
  show "returned (create_sample_data data_type n_points 0 g)
          = returned (create_sample_data data_type n_points 0 g')"
    by (rule create_sample_data_noise_free)
next
  assume "data_type \<in> {''sine'', ''exponential'', ''spectrum'', ''lightcurve'', ''transit''}"
  then show "returned (generate_data data_type n_points 0 g)
               = returned (generate_data data_type n_points 0 g')"
    by (rule generate_data_noise_free)
next
  assume "data_type \<notin> {''sine'', ''exponential'', ''spectrum'', ''lightcurve'', ''transit''} \<and> 1 \<le> n_points"
  then have "returned (generate_data data_type n_points 0 (constant_source 0 0)) \<noteq>
             returned (generate_data data_type n_points 0 (constant_source 0 1))"
    by (intro random_walk_depends) simp_all
  then show "\<exists>h h'. returned (generate_data data_type n_points 0 h)
                      \<noteq> returned (generate_data data_type n_points 0 h')"
    by blast
qed

text \<open>The statement at five samples: the transit series for two different sources, and
  the random walk.\<close>

theorem noise_free_deterministic_witness:
  "''transit'' \<in> {''sine'', ''exponential'', ''spectrum'', ''lightcurve'', ''transit''}
   \<and> returned (create_sample_data ''transit'' 5 0 (constant_source 0 0))
       = returned (create_sample_data ''transit'' 5 0 (constant_source (1/2) 1))
   \<and> returned (generate_data ''transit'' 5 0 (constant_source 0 0))
       = returned (generate_data ''transit'' 5 0 (constant_source (1/2) 1))
   \<and> ''random'' \<notin> {''sine'', ''exponential'', ''spectrum'', ''lightcurve'', ''transit''}
   \<and> (1::int) \<le> 5
   \<and> (\<exists>h h'. returned (generate_data ''random'' 5 0 h)
                \<noteq> returned (generate_data ''random'' 5 0 h'))"
proof -
  have t: "''transit'' \<in> {''sine'', ''exponential'', ''spectrum'', ''lightcurve'', ''transit''}" by simp
  have r: "''random'' \<notin> {''sine'', ''exponential'', ''spectrum'', ''lightcurve'', ''transit''} \<and> (1::int) \<le> 5" by simp
  note T = noise_free_deterministic
    [of "''transit''" 5 "constant_source 0 0" "constant_source (1/2) 1"]
  note R = noise_free_deterministic
    [of "''random''" 5 "constant_source 0 0" "constant_source 0 0"]
  note T1 = T [THEN conjunct1]
  note T2 = T [THEN conjunct2, THEN conjunct1, THEN mp, OF t]
  note R3 = R [THEN conjunct2, THEN conjunct2, THEN mp, OF r]
  show ?thesis
    by (intro conjI)
       (rule t, rule T1, rule T2, rule r [THEN conjunct1], rule r [THEN conjunct2], rule R3)
qed


section \<open>The learning datasets\<close>

lemma learning_loop_entries:
  assumes n: "1 \<le> n_points"
    and key: "key = (\<lambda>d. if d \<noteq> ''sine'' then d else ''sine_wave'')"
  shows "\<exists>m g'. learning_loop ds n_points g datasets = Inr (m, g')
           \<and> dom m = dom datasets \<union> key ` set ds
           \<and> (\<forall>k. k \<notin> key ` set ds \<longrightarrow> m k = datasets k)
           \<and> (\<forall>k \<in> key ` set ds.
                  \<exists>x y. m k = Some (x, y) \<and> int (length x) = n_points
                          \<and> int (length y) = n_points)"
proof (induction ds arbitrary: g datasets)
  case Nil
  show ?case by simp
next
  case (Cons d ds)
  from create_sample_data_length [OF n, of d "0.1" g] obtain x y title g1 where
    c: "create_sample_data d n_points 0.1 g = Inr ((x, y, title), g1)" and
    lx: "int (length x) = n_points" and ly: "int (length y) = n_points"
    by (elim exE conjE)
  define datasets1 where "datasets1 = datasets(key d \<mapsto> (x, y))"
  have st: "learning_loop (d # ds) n_points g datasets = learning_loop ds n_points g1 datasets1"
    by (simp add: c datasets1_def key Let_def)
  from Cons.IH [of g1 datasets1] obtain m g' where
    r: "learning_loop ds n_points g1 datasets1 = Inr (m, g')" and
    dm: "dom m = dom datasets1 \<union> key ` set ds" and
    keep: "\<forall>k. k \<notin> key ` set ds \<longrightarrow> m k = datasets1 k" and
    new: "\<forall>k \<in> key ` set ds. \<exists>x y. m k = Some (x, y) \<and> int (length x) = n_points
                          \<and> int (length y) = n_points"
    by (elim exE conjE)
  have step: "learning_loop (d # ds) n_points g datasets = Inr (m, g')"
    by (simp only: st r)
  have d1: "dom m = dom datasets \<union> key ` set (d # ds)"
    unfolding dm datasets1_def by simp
  have d2: "\<forall>k. k \<notin> key ` set (d # ds) \<longrightarrow> m k = datasets k"
  proof (intro allI impI)
    fix k assume k: "k \<notin> key ` set (d # ds)"
    then have a: "k \<notin> key ` set ds" and b: "k \<noteq> key d" by simp_all
    from keep a have "m k = datasets1 k" by simp
    with b show "m k = datasets k" by (simp add: datasets1_def)
  qed
  have d3: "\<forall>k \<in> key ` set (d # ds). \<exists>x y. m k = Some (x, y) \<and> int (length x) = n_points
                          \<and> int (length y) = n_points"
  proof
    fix k assume k: "k \<in> key ` set (d # ds)"
    show "\<exists>x y. m k = Some (x, y) \<and> int (length x) = n_points \<and> int (length y) = n_points"
    proof (cases "k \<in> key ` set ds")
      case True
      with new show ?thesis by (rule bspec)
    next
      case False
      with k have kd: "k = key d" by simp
      from False keep have "m k = datasets1 k" by simp
      with kd have "m k = Some (x, y)" by (simp add: datasets1_def)
      with lx ly show ?thesis by simp
    qed
  qed
  show ?case
    apply (rule exI [of _ m])
    apply (rule exI [of _ g'])
    apply (intro conjI)
       apply (rule step)
      apply (rule d1)
     apply (rule d2)
    apply (rule d3)
    done
qed

text \<open>
  Claim C10.  For every \<open>n_points \<ge> 1\<close>, \<open>learning_dashboard_data(n_points)\<close> returns,
  without raising, a dictionary whose keys are exactly \<open>sine_wave\<close>, \<open>exponential\<close>,
  \<open>spectrum\<close>, \<open>lightcurve\<close>, \<open>transit\<close> and \<open>blackbody\<close>; every value is a pair
  \<open>(x, y)\<close> of sequences of length \<open>n_points\<close>; and the entry \<open>sine_wave\<close> is the \<open>(x, y)\<close>
  of \<open>create_sample_data('sine', n_points)\<close> (default noise level \<open>0.1\<close>) called on the
  random source as \<open>learning_dashboard_data\<close> finds it.
\<close>

theorem learning_dashboard_data_entries:
  assumes "1 \<le> n_points"
  shows "\<exists>m g'. learning_dashboard_data n_points g = Inr (m, g')
           \<and> dom m = {''sine_wave'', ''exponential'', ''spectrum'',
                        ''lightcurve'', ''transit'', ''blackbody''}
           \<and> (\<forall>k x y. m k = Some (x, y) \<longrightarrow>
                  int (length x) = n_points \<and> int (length y) = n_points)
           \<and> (\<exists>x y title g1.
                  create_sample_data ''sine'' n_points 0.1 g = Inr ((x, y, title), g1)
                  \<and> m ''sine_wave'' = Some (x, y))"
proof -
  define key where "key = (\<lambda>d::string. if d \<noteq> ''sine'' then d else ''sine_wave'')"
  let ?rest = "[''exponential'', ''spectrum'', ''lightcurve'', ''transit'', ''blackbody'']"
  have ks: "key ` set ?rest
              = {''exponential'', ''spectrum'', ''lightcurve'', ''transit'', ''blackbody''}"
    by (simp add: key_def)
  from create_sample_data_length [OF assms, of "''sine''" "0.1" g] obtain x y title g1 where
    c: "create_sample_data ''sine'' n_points 0.1 g = Inr ((x, y, title), g1)" and
    lx: "int (length x) = n_points" and ly: "int (length y) = n_points"
    by (elim exE conjE)
  define datasets1 :: "string \<rightharpoonup> real list \<times> float64 list"
    where "datasets1 = [''sine_wave'' \<mapsto> (x, y)]"
  have st: "learning_dashboard_data n_points g = learning_loop ?rest n_points g1 datasets1"
    by (simp add: learning_dashboard_data_def c datasets1_def Let_def)
  from learning_loop_entries [OF assms key_def, of ?rest g1 datasets1] obtain m g' where
    r: "learning_loop ?rest n_points g1 datasets1 = Inr (m, g')" and
    dm: "dom m = dom datasets1 \<union> key ` set ?rest" and
    keep: "\<forall>k. k \<notin> key ` set ?rest \<longrightarrow> m k = datasets1 k" and
    new: "\<forall>k \<in> key ` set ?rest. \<exists>x y. m k = Some (x, y) \<and> int (length x) = n_points
                          \<and> int (length y) = n_points"
    by (elim exE conjE)
  have a: "learning_dashboard_data n_points g = Inr (m, g')"
    by (simp only: st r)
  have b: "dom m = {''sine_wave'', ''exponential'', ''spectrum'',
                     ''lightcurve'', ''transit'', ''blackbody''}"
    unfolding dm ks by (simp add: datasets1_def insert_commute)
  have "''sine_wave'' \<notin> key ` set ?rest" unfolding ks by simp
  with keep have "m ''sine_wave'' = datasets1 ''sine_wave''" by simp
  then have s: "m ''sine_wave'' = Some (x, y)" by (simp add: datasets1_def)
  have l: "\<forall>k x' y'. m k = Some (x', y') \<longrightarrow>
             int (length x') = n_points \<and> int (length y') = n_points"
  proof (intro allI impI)
    fix k x' y' assume k: "m k = Some (x', y')"
    show "int (length x') = n_points \<and> int (length y') = n_points"
    proof (cases "k \<in> key ` set ?rest")
      case True
      with new have "\<exists>x y. m k = Some (x, y) \<and> int (length x) = n_points
                          \<and> int (length y) = n_points"
        by (rule bspec)
      with k show ?thesis by simp
    next
      case False
      with keep have "m k = datasets1 k" by simp
      with k have "datasets1 k = Some (x', y')" by simp
      then have "x' = x \<and> y' = y"
        by (simp add: datasets1_def split: if_splits)
      with lx ly show ?thesis by simp
    qed
  qed
  show ?thesis
    apply (rule exI [of _ m])
    apply (rule exI [of _ g'])
    apply (intro conjI)
       apply (rule a)
      apply (rule b)
     apply (rule l)
    apply (rule exI [of _ x])
    apply (rule exI [of _ y])
    apply (rule exI [of _ title])
    apply (rule exI [of _ g1])
    apply (rule conjI [OF c s])
    done
qed

text \<open>The statement at three points per dataset.\<close>

theorem learning_dashboard_data_entries_witness:
  "(1::int) \<le> 3
   \<and> (\<exists>m g'. learning_dashboard_data 3 (constant_source 0 0) = Inr (m, g')
         \<and> dom m = {''sine_wave'', ''exponential'', ''spectrum'',
                      ''lightcurve'', ''transit'', ''blackbody''}
         \<and> (\<forall>k x y. m k = Some (x, y) \<longrightarrow>
                int (length x) = 3 \<and> int (length y) = 3)
         \<and> (\<exists>x y title g1.
                create_sample_data ''sine'' 3 0.1 (constant_source 0 0) = Inr ((x, y, title), g1)
                \<and> m ''sine_wave'' = Some (x, y)))"
proof -
  have n: "(1::int) \<le> 3" by simp
  show ?thesis
    by (intro conjI) (rule n, rule learning_dashboard_data_entries [OF n])
qed


section \<open>The exit code of the diagnostic script\<close>














lemma optional_import_failed:
  "map_option (\<lambda>r. status r = FAIL) (optional_import env d i)
     = (if import_module env i = OtherError then None else Some False)"
  by (cases "import_module env i") (simp_all add: optional_import_def)







end
